theory Spec2Isabelle
  imports Complex_Main
begin

section \<open>Enumerations, values and exceptions\<close>

text \<open>
  The model follows \<^verbatim>\<open>backend/app/core/advanced_security.py\<close>. The Redis store, the
  clock and every random draw are explicit: an operation takes the store and the current
  time (whole seconds) and returns its result together with the new store. A raised
  exception is the value \<open>Raise e\<close>. A Python float is the real number it stands for.
  In the threat score every operation rounds as double arithmetic does; in the crack-time
  estimate the range of a double matters (\<^verbatim>\<open>2**entropy\<close>) and its overflow is an
  explicit branch.
\<close>

datatype SecurityLevel = LOW | MEDIUM | HIGH | CRITICAL

datatype ThreatType =
  BRUTE_FORCE | CREDENTIAL_STUFFING | UNUSUAL_ACTIVITY | DATA_EXFILTRATION | API_ABUSE

datatype MFAMethod = TOTP | SMS | EMAIL | HARDWARE_KEY

fun SecurityLevel_value :: "SecurityLevel \<Rightarrow> string" where
  "SecurityLevel_value LOW = ''low''"
| "SecurityLevel_value MEDIUM = ''medium''"
| "SecurityLevel_value HIGH = ''high''"
| "SecurityLevel_value CRITICAL = ''critical''"

fun ThreatType_value :: "ThreatType \<Rightarrow> string" where
  "ThreatType_value BRUTE_FORCE = ''brute_force''"
| "ThreatType_value CREDENTIAL_STUFFING = ''credential_stuffing''"
| "ThreatType_value UNUSUAL_ACTIVITY = ''unusual_activity''"
| "ThreatType_value DATA_EXFILTRATION = ''data_exfiltration''"
| "ThreatType_value API_ABUSE = ''api_abuse''"

text \<open>Values of a token payload (a JSON object): strings, integers and \<^verbatim>\<open>None\<close>.\<close>

datatype jvalue = JStr string | JNum int | JNull

text \<open>Python truthiness, as \<^verbatim>\<open>if jti:\<close> reads it.\<close>

fun jvalue_truthy :: "jvalue \<Rightarrow> bool" where
  "jvalue_truthy (JStr s) = (s \<noteq> [])"
| "jvalue_truthy (JNum n) = (n \<noteq> 0)"
| "jvalue_truthy JNull = False"

datatype http_detail =
  Detail string
| RateLimitExceeded string string nat  \<comment> \<open>error text, action, retry_after\<close>

text \<open>The errors of \<^verbatim>\<open>jwt.decode\<close>: an expired token, and every other one.\<close>

datatype jwt_error = ExpiredSignatureError | InvalidTokenError

datatype exn =
  HTTPException nat http_detail
| KeyError string
| ValueError
| ResponseError
| OverflowError
| PyJWTError jwt_error
| AttributeError string

datatype 'a outcome = Return 'a | Raise exn

subsection \<open>Decimal and hexadecimal text\<close>

definition digit10 :: "nat \<Rightarrow> char" where
  "digit10 d = ''0123456789'' ! (d mod 10)"

function str_nat :: "nat \<Rightarrow> string" where
  "str_nat n = (if n < 10 then [digit10 n] else str_nat (n div 10) @ [digit10 (n mod 10)])"
  by pat_completeness auto
termination
  by (relation "measure (\<lambda>n. n)") auto

definition str_int :: "int \<Rightarrow> string" where
  "str_int i = (if i < 0 then CHR ''-'' # str_nat (nat (- i)) else str_nat (nat i))"

text \<open>How an f-string prints a payload value: \<^verbatim>\<open>f"jwt:{jti}"\<close>.\<close>

fun format_jvalue :: "jvalue \<Rightarrow> string" where
  "format_jvalue (JStr s) = s"
| "format_jvalue (JNum n) = str_int n"
| "format_jvalue JNull = ''None''"

definition hexdigit :: "nat \<Rightarrow> char" where
  "hexdigit d = ''0123456789abcdef'' ! (d mod 16)"

text \<open>\<^verbatim>\<open>secrets.token_hex(n)\<close>: the \<open>n\<close> random bytes are the argument.\<close>

definition token_hex :: "nat list \<Rightarrow> string" where
  "token_hex bs = concat (map (\<lambda>b. [hexdigit (b div 16), hexdigit b]) bs)"

definition upper_hex :: "char \<Rightarrow> char" where
  "upper_hex c =
     (if c = CHR ''a'' then CHR ''A'' else if c = CHR ''b'' then CHR ''B''
      else if c = CHR ''c'' then CHR ''C'' else if c = CHR ''d'' then CHR ''D''
      else if c = CHR ''e'' then CHR ''E'' else if c = CHR ''f'' then CHR ''F'' else c)"

section \<open>The Redis store\<close>

text \<open>
  A Redis string value: one that spells an integer (what \<^verbatim>\<open>INCR\<close> writes) is
  \<open>RInt\<close>, the \<^verbatim>\<open>json.dumps\<close> of an object is kept structured as \<open>RJson\<close>, any
  other byte string is \<open>RStr\<close>. An entry carries its expiry time, if it has one; Redis
  holds a key up to and including its expiry time and drops it once the clock is past
  it.
\<close>

datatype rvalue = RInt int | RStr string | RJson "(string \<times> jvalue) list"

fun rvalue_truthy :: "rvalue \<Rightarrow> bool" where
  "rvalue_truthy (RInt n) = True"
| "rvalue_truthy (RStr s) = (s \<noteq> [])"
| "rvalue_truthy (RJson d) = True"

definition redis_get :: "(string \<Rightarrow> (rvalue \<times> nat option) option) \<Rightarrow> nat \<Rightarrow> string \<Rightarrow> rvalue option" where
  "redis_get m now k =
     (case m k of
        None \<Rightarrow> None
      | Some (v, None) \<Rightarrow> Some v
      | Some (v, Some e) \<Rightarrow> (if now \<le> e then Some v else None))"

definition redis_setex ::
  "(string \<Rightarrow> (rvalue \<times> nat option) option) \<Rightarrow> nat \<Rightarrow> string \<Rightarrow> nat \<Rightarrow> rvalue \<Rightarrow>
   (string \<Rightarrow> (rvalue \<times> nat option) option)" where
  "redis_setex m now k ttl v = m(k \<mapsto> (v, Some (now + ttl)))"

definition redis_delete ::
  "(string \<Rightarrow> (rvalue \<times> nat option) option) \<Rightarrow> string \<Rightarrow> (string \<Rightarrow> (rvalue \<times> nat option) option)" where
  "redis_delete m k = m(k := None)"

text \<open>\<^verbatim>\<open>INCR\<close>: an absent (or expired) key starts at 0 and has no expiry; a value that
  is not an integer is an error (\<open>None\<close>); an existing counter keeps its expiry.\<close>

definition redis_incr ::
  "(string \<Rightarrow> (rvalue \<times> nat option) option) \<Rightarrow> nat \<Rightarrow> string \<Rightarrow>
   (string \<Rightarrow> (rvalue \<times> nat option) option) option" where
  "redis_incr m now k =
     (case redis_get m now k of
        None \<Rightarrow> Some (m(k \<mapsto> (RInt 1, None)))
      | Some (RInt n) \<Rightarrow> Some (m(k \<mapsto> (RInt (n + 1), (case m k of Some (v, e) \<Rightarrow> e | None \<Rightarrow> None))))
      | Some (RStr s) \<Rightarrow> None
      | Some (RJson d) \<Rightarrow> None)"

definition redis_expire ::
  "(string \<Rightarrow> (rvalue \<times> nat option) option) \<Rightarrow> nat \<Rightarrow> string \<Rightarrow> nat \<Rightarrow>
   (string \<Rightarrow> (rvalue \<times> nat option) option)" where
  "redis_expire m now k ttl =
     (case redis_get m now k of
        None \<Rightarrow> m
      | Some v \<Rightarrow> m(k \<mapsto> (v, Some (now + ttl))))"

definition redis_lpush :: "'a \<Rightarrow> 'a list \<Rightarrow> 'a list" where
  "redis_lpush x xs = x # xs"

text \<open>\<^verbatim>\<open>LTRIM key start stop\<close> keeps the elements at the indices \<open>start\<close> to \<open>stop\<close>,
  both included; a negative index counts from the end.\<close>

definition redis_ltrim :: "'a list \<Rightarrow> int \<Rightarrow> int \<Rightarrow> 'a list" where
  "redis_ltrim xs start stop =
     (let n = int (length xs);
          s = (if start < 0 then max 0 (n + start) else start);
          e = (if stop < 0 then n + stop else min stop (n - 1))
      in if e < s then [] else take (nat (e - s + 1)) (drop (nat s) xs))"

section \<open>Security events and the event log\<close>

datatype detail_value =
  DBool bool
| DStr string
| DFeatures "(string \<times> real) list"
| DActivity "string \<Rightarrow> real option"

record SecurityEvent =
  event_id :: string
  user_id :: "string option"
  event_type :: ThreatType
  severity :: SecurityLevel
  timestamp :: nat
  ip_address :: string
  user_agent :: string
  details :: "(string \<times> detail_value) list"
  risk_score :: real
  geolocation :: "(string \<times> string) list option"

record alert =
  alert_type :: string
  alert_severity :: string
  alert_user_id :: "string option"
  threat_type :: string
  alert_risk_score :: real
  alert_timestamp :: nat
  alert_details :: "(string \<times> detail_value) list"

record store =
  kv :: "string \<Rightarrow> (rvalue \<times> nat option) option"
  security_events :: "SecurityEvent list"
  security_alerts :: "alert list"
  members :: "string \<Rightarrow> string set"

definition trigger_security_alert :: "store \<Rightarrow> SecurityEvent \<Rightarrow> store" where
  "trigger_security_alert st event =
     (let alert_data =
        \<lparr>alert_type = ''security_threat'',
         alert_severity = SecurityLevel_value (severity event),
         alert_user_id = user_id event,
         threat_type = ThreatType_value (event_type event),
         alert_risk_score = risk_score event,
         alert_timestamp = timestamp event,
         alert_details = details event\<rparr>
      in st\<lparr>security_alerts := redis_lpush alert_data (security_alerts st)\<rparr>)"

definition log_security_event :: "store \<Rightarrow> SecurityEvent \<Rightarrow> store" where
  "log_security_event st event =
     (let st1 = st\<lparr>security_events := redis_lpush event (security_events st)\<rparr>;
          st2 = st1\<lparr>security_events := redis_ltrim (security_events st1) 0 10000\<rparr>
      in if severity event = HIGH \<or> severity event = CRITICAL
         then trigger_security_alert st2 event else st2)"

section \<open>Requests and external libraries\<close>

record request =
  headers :: "string \<Rightarrow> string option"
  client_host :: "string option"

text \<open>The functions of the external libraries that the manager calls and that are
  not modelled here: \<^verbatim>\<open>hashlib.md5(...).hexdigest()\<close>, Fernet encryption (its random
  initialisation vector is an argument) and decryption (\<open>None\<close> when it raises),
  \<^verbatim>\<open>pyotp.TOTP(secret).verify(token, valid_window=1)\<close> at a given time and
  \<^verbatim>\<open>provisioning_uri\<close>.\<close>

record libs =
  md5_hexdigest :: "string \<Rightarrow> string"
  fernet_encrypt :: "string \<Rightarrow> string \<Rightarrow> string"
  fernet_decrypt :: "rvalue \<Rightarrow> string option"
  totp_verify :: "string \<Rightarrow> string \<Rightarrow> nat \<Rightarrow> bool"
  provisioning_uri :: "string \<Rightarrow> string \<Rightarrow> string \<Rightarrow> string"

definition py_isspace :: "char \<Rightarrow> bool" where
  "py_isspace c =
     (c \<in> set [CHR '' '', CHR 0x09, CHR 0x0A, CHR 0x0B, CHR 0x0C, CHR 0x0D,
               CHR 0x1C, CHR 0x1D, CHR 0x1E, CHR 0x1F])"

definition strip :: "string \<Rightarrow> string" where
  "strip s = rev (dropWhile py_isspace (rev (dropWhile py_isspace s)))"

text \<open>\<^verbatim>\<open>s.split(",")[0]\<close>: the text before the first comma.\<close>

definition split_comma_first :: "string \<Rightarrow> string" where
  "split_comma_first s = takeWhile (\<lambda>c. c \<noteq> CHR '','') s"

definition get_client_ip :: "request \<Rightarrow> string" where
  "get_client_ip rq =
     (let forwarded_for = headers rq ''x-forwarded-for'';
          real_ip = headers rq ''x-real-ip'';
          direct = (case client_host rq of Some h \<Rightarrow> h | None \<Rightarrow> ''unknown'')
      in case forwarded_for of
           Some f \<Rightarrow>
             (if f \<noteq> [] then strip (split_comma_first f)
              else (case real_ip of
                      Some r \<Rightarrow> (if r \<noteq> [] then r else direct)
                    | None \<Rightarrow> direct))
         | None \<Rightarrow>
             (case real_ip of
                Some r \<Rightarrow> (if r \<noteq> [] then r else direct)
              | None \<Rightarrow> direct))"

section \<open>Rate limiting\<close>

record limit_config =
  requests :: int
  window :: nat

definition rate_limits :: "string \<Rightarrow> limit_config option" where
  "rate_limits =
     [''login'' \<mapsto> \<lparr>requests = 5, window = 300\<rparr>,
      ''api_call'' \<mapsto> \<lparr>requests = 1000, window = 3600\<rparr>,
      ''ai_request'' \<mapsto> \<lparr>requests = 100, window = 3600\<rparr>,
      ''password_reset'' \<mapsto> \<lparr>requests = 3, window = 3600\<rparr>,
      ''mfa_attempt'' \<mapsto> \<lparr>requests = 10, window = 300\<rparr>]"

text \<open>\<^verbatim>\<open>self.rate_limits.get(action, {"requests": 100, "window": 3600})\<close>\<close>

definition rate_limits_get :: "string \<Rightarrow> limit_config" where
  "rate_limits_get action =
     (case rate_limits action of
        Some c \<Rightarrow> c
      | None \<Rightarrow> \<lparr>requests = 100, window = 3600\<rparr>)"

definition check_rate_limit :: "store \<Rightarrow> nat \<Rightarrow> string \<Rightarrow> string \<Rightarrow> bool outcome" where
  "check_rate_limit st now key action =
     (let limit_config = rate_limits_get action
      in case redis_get (kv st) now key of
           None \<Rightarrow> Return True
         | Some (RInt current_count) \<Rightarrow> Return (current_count < requests limit_config)
         | Some (RStr s) \<Rightarrow> Raise ValueError
         | Some (RJson d) \<Rightarrow> Raise ValueError)"

text \<open>The pipeline runs \<^verbatim>\<open>INCR\<close> and \<^verbatim>\<open>EXPIRE\<close> together; when \<^verbatim>\<open>INCR\<close>
  fails, \<^verbatim>\<open>execute\<close> raises after both have run.\<close>

definition increment_rate_limit_counter ::
  "store \<Rightarrow> nat \<Rightarrow> string \<Rightarrow> string \<Rightarrow> unit outcome \<times> store" where
  "increment_rate_limit_counter st now key action =
     (let limit_config = rate_limits_get action
      in case redis_incr (kv st) now key of
           Some m \<Rightarrow> (Return (), st\<lparr>kv := redis_expire m now key (window limit_config)\<rparr>)
         | None \<Rightarrow>
             (Raise ResponseError,
              st\<lparr>kv := redis_expire (kv st) now key (window limit_config)\<rparr>))"

text \<open>The list \<^verbatim>\<open>keys\<close> of \<^verbatim>\<open>advanced_rate_limiting\<close>: one key per dimension,
  the user's only when \<^verbatim>\<open>user_id\<close> is truthy.\<close>

definition rate_limit_keys :: "libs \<Rightarrow> string \<Rightarrow> string \<Rightarrow> string option \<Rightarrow> string \<Rightarrow> string list" where
  "rate_limit_keys L action client_ip uid ua =
     [''rate_limit:'' @ action @ '':ip:'' @ client_ip]
     @ (case uid of
          Some u \<Rightarrow> (if u \<noteq> [] then [''rate_limit:'' @ action @ '':user:'' @ u] else [])
        | None \<Rightarrow> [])
     @ [''rate_limit:'' @ action @ '':ua:'' @ md5_hexdigest L ua]"

text \<open>The first loop: \<open>Return False\<close> at the first key whose check fails.\<close>

fun check_each :: "store \<Rightarrow> nat \<Rightarrow> string \<Rightarrow> string list \<Rightarrow> bool outcome" where
  "check_each st now action [] = Return True"
| "check_each st now action (key # keys) =
     (case check_rate_limit st now key action of
        Raise e \<Rightarrow> Raise e
      | Return ok \<Rightarrow> (if ok then check_each st now action keys else Return False))"

text \<open>The second loop: every counter is incremented.\<close>

fun increment_each :: "store \<Rightarrow> nat \<Rightarrow> string \<Rightarrow> string list \<Rightarrow> unit outcome \<times> store" where
  "increment_each st now action [] = (Return (), st)"
| "increment_each st now action (key # keys) =
     (case increment_rate_limit_counter st now key action of
        (Raise e, st') \<Rightarrow> (Raise e, st')
      | (Return u, st') \<Rightarrow> increment_each st' now action keys)"

definition user_agent_of :: "request \<Rightarrow> string \<Rightarrow> string" where
  "user_agent_of rq dflt = (case headers rq ''user-agent'' of Some u \<Rightarrow> u | None \<Rightarrow> dflt)"

text \<open>\<open>eid\<close> is the drawn \<^verbatim>\<open>secrets.token_hex(16)\<close> of the event.\<close>

definition advanced_rate_limiting ::
  "libs \<Rightarrow> store \<Rightarrow> nat \<Rightarrow> string \<Rightarrow> request \<Rightarrow> string option \<Rightarrow> string \<Rightarrow> bool outcome \<times> store" where
  "advanced_rate_limiting L st now eid rq uid action =
     (let client_ip = get_client_ip rq;
          ua = user_agent_of rq ''unknown'';
          keys = rate_limit_keys L action client_ip uid ua
      in case check_each st now action keys of
           Raise e \<Rightarrow> (Raise e, st)
         | Return ok \<Rightarrow>
             (if \<not> ok then
                (let st' = log_security_event st
                       \<lparr>event_id = eid, user_id = uid, event_type = API_ABUSE,
                        severity = MEDIUM, timestamp = now, ip_address = client_ip,
                        user_agent = ua,
                        details = [(''action'', DStr action), (''rate_limit_exceeded'', DBool True)],
                        risk_score = 0.6, geolocation = None\<rparr>
                 in case rate_limits action of
                      None \<Rightarrow> (Raise (KeyError action), st')
                    | Some c \<Rightarrow>
                        (Raise (HTTPException 429
                                  (RateLimitExceeded ''Rate limit exceeded'' action (window c))), st'))
              else
                (case increment_each st now action keys of
                   (Raise e, st') \<Rightarrow> (Raise e, st')
                 | (Return u, st') \<Rightarrow> (Return True, st'))))"

section \<open>Double arithmetic\<close>

text \<open>
  The result of an arithmetic operation on floats is the exact result rounded to the
  nearest double (53 significant bits, exponent at least -1022), a tie going to the even
  neighbour; a literal such as \<^verbatim>\<open>0.3\<close> is the double nearest to it. Results beyond
  the largest double (infinities) are outside this model.
\<close>

definition round_half_even :: "real \<Rightarrow> int" where
  "round_half_even x =
     (let f = \<lfloor>x\<rfloor>; d = x - of_int f
      in if d < 1 / 2 then f else if 1 / 2 < d then f + 1 else if even f then f else f + 1)"

definition round_double :: "real \<Rightarrow> real" where
  "round_double x =
     (if x = 0 then 0
      else (let e = max \<lfloor>log 2 \<bar>x\<bar>\<rfloor> (- 1022);
                q = 2 powr (of_int e - 52)
            in of_int (round_half_even (x / q)) * q))"

definition fadd :: "real \<Rightarrow> real \<Rightarrow> real" where
  "fadd x y = round_double (x + y)"

definition fsub :: "real \<Rightarrow> real \<Rightarrow> real" where
  "fsub x y = round_double (x - y)"

definition fmul :: "real \<Rightarrow> real \<Rightarrow> real" where
  "fmul x y = round_double (x * y)"

definition fdiv :: "real \<Rightarrow> real \<Rightarrow> real" where
  "fdiv x y = round_double (x / y)"

section \<open>Threat detection\<close>

text \<open>\<^verbatim>\<open>_get_user_typical_hours\<close> returns the constant \<^verbatim>\<open>{"mean": 12.0, "std": 4.0}\<close>.\<close>

definition get_user_typical_hours :: "string \<Rightarrow> (string \<Rightarrow> real option)" where
  "get_user_typical_hours uid = [''mean'' \<mapsto> 12, ''std'' \<mapsto> 4]"

definition get_user_historical_ips :: "store \<Rightarrow> string \<Rightarrow> string set" where
  "get_user_historical_ips st uid = members st (''user_ips:'' @ uid)"

definition get_user_historical_agents :: "store \<Rightarrow> string \<Rightarrow> string set" where
  "get_user_historical_agents st uid = members st (''user_agents:'' @ uid)"

definition activity_get :: "(string \<Rightarrow> real option) \<Rightarrow> string \<Rightarrow> real \<Rightarrow> real" where
  "activity_get activity k dflt = (case activity k of Some v \<Rightarrow> v | None \<Rightarrow> dflt)"

text \<open>\<open>current_hour\<close> is \<^verbatim>\<open>datetime.now().hour\<close>. The features are listed in the order
  in which the dictionary receives them.\<close>

definition extract_behavioral_features ::
  "store \<Rightarrow> nat \<Rightarrow> string \<Rightarrow> string \<Rightarrow> string \<Rightarrow> (string \<Rightarrow> real option) \<Rightarrow> (string \<times> real) list" where
  "extract_behavioral_features st current_hour uid ip ua activity =
     (let historical_hours = get_user_typical_hours uid;
          historical_ips = get_user_historical_ips st uid;
          historical_agents = get_user_historical_agents st uid
      in [(''hour_anomaly'',
             fdiv \<bar>fsub (real current_hour) (activity_get historical_hours ''mean'' 12)\<bar> 12),
          (''new_location'', if ip \<notin> historical_ips then 1 else 0),
          (''new_device'', if ua \<notin> historical_agents then 1 else 0),
          (''api_call_frequency'', fdiv (activity_get activity ''calls_per_minute'' 0) 100),
          (''data_access_volume'', fdiv (activity_get activity ''data_accessed_mb'' 0) 1000),
          (''failed_auth_ratio'',
             fdiv (activity_get activity ''failed_auths'' 0)
                  (max (activity_get activity ''total_auths'' 1) 1))])"

definition weights :: "string \<Rightarrow> real option" where
  "weights =
     [''hour_anomaly'' \<mapsto> round_double 0.2,
      ''new_location'' \<mapsto> round_double 0.3,
      ''new_device'' \<mapsto> round_double 0.25,
      ''api_call_frequency'' \<mapsto> round_double 0.15,
      ''data_access_volume'' \<mapsto> round_double 0.1,
      ''failed_auth_ratio'' \<mapsto> round_double 0.4]"

definition calculate_risk_score :: "(string \<times> real) list \<Rightarrow> real" where
  "calculate_risk_score features =
     (let total =
        foldl (\<lambda>acc (feature, v).
                 fadd acc
                   (fmul v (case weights feature of Some w \<Rightarrow> w | None \<Rightarrow> round_double 0.1)))
              0 features
      in min 1 (max 0 total))"

definition determine_threat_level :: "real \<Rightarrow> SecurityLevel" where
  "determine_threat_level score =
     (if score \<ge> round_double 0.8 then CRITICAL
      else if score \<ge> round_double 0.6 then HIGH
      else if score \<ge> round_double 0.3 then MEDIUM
      else LOW)"

record threat_response =
  resp_risk_score :: real
  resp_threat_level :: string
  recommended_actions :: "string list"
  blocking_required :: bool

definition ai_powered_threat_detection ::
  "store \<Rightarrow> nat \<Rightarrow> string \<Rightarrow> nat \<Rightarrow> string \<Rightarrow> request \<Rightarrow> (string \<Rightarrow> real option) \<Rightarrow>
   threat_response \<times> store" where
  "ai_powered_threat_detection st now eid current_hour uid rq activity =
     (let client_ip = get_client_ip rq;
          ua = user_agent_of rq [];
          features = extract_behavioral_features st current_hour uid client_ip ua activity;
          score = calculate_risk_score features;
          threat_level = determine_threat_level score;
          response =
            \<lparr>resp_risk_score = score,
             resp_threat_level = SecurityLevel_value threat_level,
             recommended_actions =
               (if threat_level = HIGH then [''require_mfa'', ''additional_verification'']
                else if threat_level = CRITICAL
                then [''block_access'', ''alert_admin'', ''require_account_verification'']
                else []),
             blocking_required =
               (if threat_level = HIGH then False
                else if threat_level = CRITICAL then True else False)\<rparr>
      in if threat_level = HIGH \<or> threat_level = CRITICAL
         then (response,
               log_security_event st
                 \<lparr>event_id = eid, user_id = Some uid, event_type = UNUSUAL_ACTIVITY,
                  severity = threat_level, timestamp = now, ip_address = client_ip,
                  user_agent = ua,
                  details = [(''features'', DFeatures features),
                             (''activity_data'', DActivity activity)],
                  risk_score = score, geolocation = None\<rparr>)
         else (response, st))"

section \<open>Multi-factor authentication\<close>

record totp_setup =
  setup_method :: string
  setup_secret :: string
  qr_code_data :: string
  setup_expires_in :: nat
  backup_codes :: "string list"

text \<open>\<^verbatim>\<open>_generate_backup_codes\<close>: \<open>draws\<close> holds the random bytes of each of the
  \<^verbatim>\<open>count\<close> calls of \<^verbatim>\<open>secrets.token_hex(4)\<close>.\<close>

definition generate_backup_codes :: "nat list list \<Rightarrow> string list" where
  "generate_backup_codes draws = map (\<lambda>bs. map upper_hex (token_hex bs)) draws"

text \<open>\<open>secret\<close> is the drawn \<^verbatim>\<open>pyotp.random_base32()\<close>, \<open>iv\<close> the randomness of
  the encryption.\<close>

definition setup_totp_mfa ::
  "libs \<Rightarrow> store \<Rightarrow> nat \<Rightarrow> string \<Rightarrow> string \<Rightarrow> string \<Rightarrow> nat list list \<Rightarrow> totp_setup \<times> store" where
  "setup_totp_mfa L st now uid secret iv draws =
     (let uri = provisioning_uri L secret uid ''FocusFlow Enterprise'';
          encrypted_secret = fernet_encrypt L iv secret;
          st' = st\<lparr>kv := redis_setex (kv st) now (''mfa_setup:'' @ uid) 300 (RStr encrypted_secret)\<rparr>
      in (\<lparr>setup_method = ''totp'', setup_secret = secret, qr_code_data = uri,
           setup_expires_in = 300, backup_codes = generate_backup_codes draws\<rparr>, st'))"

text \<open>Every exception inside \<^verbatim>\<open>_validate_totp_token\<close> is caught and gives \<open>False\<close>.\<close>

definition validate_totp_token :: "libs \<Rightarrow> store \<Rightarrow> nat \<Rightarrow> string \<Rightarrow> string \<Rightarrow> bool" where
  "validate_totp_token L st now uid tok =
     (case redis_get (kv st) now (''mfa_secret:'' @ uid) of
        None \<Rightarrow> False
      | Some encrypted_secret \<Rightarrow>
          (if \<not> rvalue_truthy encrypted_secret then False
           else (case fernet_decrypt L encrypted_secret of
                   None \<Rightarrow> False
                 | Some secret \<Rightarrow> totp_verify L secret tok now)))"

definition validate_mfa_token ::
  "libs \<Rightarrow> store \<Rightarrow> nat \<Rightarrow> string \<Rightarrow> string \<Rightarrow> string \<Rightarrow> MFAMethod \<Rightarrow> bool outcome \<times> store" where
  "validate_mfa_token L st now eid uid tok method =
     (let mfa_key = ''mfa_attempts:'' @ uid
      in case check_rate_limit st now mfa_key ''mfa_attempt'' of
           Raise e \<Rightarrow> (Raise e, st)
         | Return ok \<Rightarrow>
             (if \<not> ok then
                (Return False,
                 log_security_event st
                   \<lparr>event_id = eid, user_id = Some uid, event_type = BRUTE_FORCE,
                    severity = HIGH, timestamp = now, ip_address = ''unknown'',
                    user_agent = ''unknown'',
                    details = [(''mfa_brute_force'', DBool True)],
                    risk_score = 0.8, geolocation = None\<rparr>)
              else
                (case increment_rate_limit_counter st now mfa_key ''mfa_attempt'' of
                   (Raise e, st') \<Rightarrow> (Raise e, st')
                 | (Return u, st') \<Rightarrow>
                     (if method = TOTP then (Return (validate_totp_token L st' now uid tok), st')
                      else (Return False, st')))))"

section \<open>Tokens\<close>

text \<open>
  A token is what \<^verbatim>\<open>jwt.encode\<close> returns: a payload signed with a key; any other string
  is \<open>Malformed\<close>. Signatures are ideal: a token verifies under the key it was signed
  with and under no other. \<^verbatim>\<open>jwt\<close> is PyJWT. After the signature its \<^verbatim>\<open>decode\<close>
  checks, in this order: \<^verbatim>\<open>iat\<close> (a number, not in the future), \<^verbatim>\<open>nbf\<close> (a number, not
  in the future), \<^verbatim>\<open>exp\<close> unless \<^verbatim>\<open>verify_exp\<close> is off (a number; the token is
  expired from the second \<^verbatim>\<open>exp\<close> on), \<^verbatim>\<open>aud\<close> (no audience is passed, so a token that
  names one is refused), \<^verbatim>\<open>sub\<close> and \<^verbatim>\<open>jti\<close> (a string when present). A time claim
  is a number when it is a \<open>JNum\<close>.
\<close>

datatype token = Signed "string \<Rightarrow> jvalue option" string | Malformed string

definition jwt_encode :: "(string \<Rightarrow> jvalue option) \<Rightarrow> string \<Rightarrow> token" where
  "jwt_encode payload key = Signed payload key"

fun claim_number_or_absent :: "jvalue option \<Rightarrow> bool" where
  "claim_number_or_absent None = True"
| "claim_number_or_absent (Some (JNum n)) = True"
| "claim_number_or_absent (Some (JStr s)) = False"
| "claim_number_or_absent (Some JNull) = False"

fun claim_string_or_absent :: "jvalue option \<Rightarrow> bool" where
  "claim_string_or_absent None = True"
| "claim_string_or_absent (Some (JStr s)) = True"
| "claim_string_or_absent (Some (JNum n)) = False"
| "claim_string_or_absent (Some JNull) = False"

fun claim_after :: "jvalue option \<Rightarrow> nat \<Rightarrow> bool" where
  "claim_after (Some (JNum n)) now = (int now < n)"
| "claim_after (Some (JStr s)) now = False"
| "claim_after (Some JNull) now = False"
| "claim_after None now = False"

fun claim_passed :: "jvalue option \<Rightarrow> nat \<Rightarrow> bool" where
  "claim_passed (Some (JNum n)) now = (n \<le> int now)"
| "claim_passed (Some (JStr s)) now = False"
| "claim_passed (Some JNull) now = False"
| "claim_passed None now = False"

fun claim_truthy :: "jvalue option \<Rightarrow> bool" where
  "claim_truthy (Some v) = jvalue_truthy v"
| "claim_truthy None = False"

fun jwt_decode :: "token \<Rightarrow> string \<Rightarrow> bool \<Rightarrow> nat \<Rightarrow> jwt_error + (string \<Rightarrow> jvalue option)" where
  "jwt_decode (Malformed s) key verify_exp now = Inl InvalidTokenError"
| "jwt_decode (Signed payload k) key verify_exp now =
     (if k \<noteq> key then Inl InvalidTokenError
      else if \<not> claim_number_or_absent (payload ''iat'') then Inl InvalidTokenError
      else if claim_after (payload ''iat'') now then Inl InvalidTokenError
      else if \<not> claim_number_or_absent (payload ''nbf'') then Inl InvalidTokenError
      else if claim_after (payload ''nbf'') now then Inl InvalidTokenError
      else if verify_exp \<and> \<not> claim_number_or_absent (payload ''exp'') then Inl InvalidTokenError
      else if verify_exp \<and> claim_passed (payload ''exp'') now then Inl ExpiredSignatureError
      else if claim_truthy (payload ''aud'') then Inl InvalidTokenError
      else if \<not> claim_string_or_absent (payload ''sub'') then Inl InvalidTokenError
      else if \<not> claim_string_or_absent (payload ''jti'') then Inl InvalidTokenError
      else Inr payload)"

definition access_token_expire :: nat where
  "access_token_expire = 3600"

definition refresh_token_expire :: nat where
  "refresh_token_expire = 604800"

text \<open>\<open>secret_key\<close> is the manager's key, \<open>rnd\<close> the random bytes of
  \<^verbatim>\<open>secrets.token_hex(16)\<close>.\<close>

definition create_secure_jwt_token ::
  "string \<Rightarrow> store \<Rightarrow> nat \<Rightarrow> nat list \<Rightarrow> (string \<Rightarrow> jvalue option) \<Rightarrow> string \<Rightarrow> token \<times> store" where
  "create_secure_jwt_token secret_key st now rnd payload token_type =
     (let jti = token_hex rnd;
          enhanced_payload =
            payload(''iat'' \<mapsto> JNum (int now), ''nbf'' \<mapsto> JNum (int now),
                    ''jti'' \<mapsto> JStr jti, ''token_type'' \<mapsto> JStr token_type);
          enhanced_payload =
            (if token_type = ''access''
             then enhanced_payload(''exp'' \<mapsto> JNum (int (now + access_token_expire)))
             else if token_type = ''refresh''
             then enhanced_payload(''exp'' \<mapsto> JNum (int (now + refresh_token_expire)))
             else enhanced_payload);
          tok = jwt_encode enhanced_payload secret_key;
          sub = (case payload ''sub'' of Some v \<Rightarrow> v | None \<Rightarrow> JNull)
      in (tok,
          st\<lparr>kv := redis_setex (kv st) now (''jwt:'' @ jti)
                     (if token_type = ''access'' then access_token_expire
                      else refresh_token_expire)
                     (RJson [(''user_id'', sub), (''token_type'', JStr token_type)])\<rparr>))"

text \<open>The body of the \<^verbatim>\<open>try\<close> block of \<^verbatim>\<open>validate_jwt_token\<close>.\<close>

definition validate_jwt_token_try ::
  "string \<Rightarrow> store \<Rightarrow> nat \<Rightarrow> token \<Rightarrow> (string \<Rightarrow> jvalue option) outcome" where
  "validate_jwt_token_try secret_key st now tok =
     (case jwt_decode tok secret_key True now of
        Inl e \<Rightarrow> Raise (PyJWTError e)
      | Inr payload \<Rightarrow>
          (case payload ''jti'' of
             None \<Rightarrow> Return payload
           | Some jti \<Rightarrow>
               (if jvalue_truthy jti then
                  (case redis_get (kv st) now (''jwt:'' @ format_jvalue jti) of
                     None \<Rightarrow> Raise (HTTPException 401 (Detail ''Token has been revoked''))
                   | Some token_data \<Rightarrow>
                       (if \<not> rvalue_truthy token_data
                        then Raise (HTTPException 401 (Detail ''Token has been revoked''))
                        else Return payload))
                else Return payload)))"

text \<open>
  The handlers. \<^verbatim>\<open>except jwt.ExpiredSignatureError\<close> takes the error of an expired token.
  For any other exception of the body, also the \<^verbatim>\<open>HTTPException\<close> of a revoked token,
  Python goes on to \<^verbatim>\<open>except jwt.JWTError\<close>; PyJWT has no attribute of that name
  (\<^verbatim>\<open>core/security.py\<close> takes its \<^verbatim>\<open>JWTError\<close> from \<^verbatim>\<open>jose\<close>), so looking the handler
  up raises \<^verbatim>\<open>AttributeError\<close>.
\<close>

definition validate_jwt_token ::
  "string \<Rightarrow> store \<Rightarrow> nat \<Rightarrow> token \<Rightarrow> (string \<Rightarrow> jvalue option) outcome" where
  "validate_jwt_token secret_key st now tok =
     (case validate_jwt_token_try secret_key st now tok of
        Return payload \<Rightarrow> Return payload
      | Raise e \<Rightarrow>
          (if e = PyJWTError ExpiredSignatureError
           then Raise (HTTPException 401 (Detail ''Token has expired''))
           else Raise (AttributeError ''JWTError'')))"

definition revoke_jwt_token :: "string \<Rightarrow> store \<Rightarrow> nat \<Rightarrow> token \<Rightarrow> bool \<times> store" where
  "revoke_jwt_token secret_key st now tok =
     (case jwt_decode tok secret_key False now of
        Inl e \<Rightarrow> (False, st)
      | Inr payload \<Rightarrow>
          (case payload ''jti'' of
             None \<Rightarrow> (False, st)
           | Some jti \<Rightarrow>
               (if jvalue_truthy jti
                then (True, st\<lparr>kv := redis_delete (kv st) (''jwt:'' @ format_jvalue jti)\<rparr>)
                else (False, st))))"

section \<open>Password entropy and crack time\<close>

text \<open>A password is a string of ASCII characters; the classes are those that
  \<^verbatim>\<open>str.islower\<close>, \<^verbatim>\<open>str.isupper\<close> and \<^verbatim>\<open>str.isdigit\<close> give on ASCII.\<close>

definition islower :: "char \<Rightarrow> bool" where
  "islower c = (c \<in> set ''abcdefghijklmnopqrstuvwxyz'')"

definition isupper :: "char \<Rightarrow> bool" where
  "isupper c = (c \<in> set ''ABCDEFGHIJKLMNOPQRSTUVWXYZ'')"

definition isdigit :: "char \<Rightarrow> bool" where
  "isdigit c = (c \<in> set ''0123456789'')"

definition isspecial :: "char \<Rightarrow> bool" where
  "isspecial c = (c \<in> set ''!@#$%^&*()_+-=[]{}|;:,.<>?'')"

definition charset_size :: "string \<Rightarrow> nat" where
  "charset_size password =
     (if list_ex islower password then 26 else 0)
     + (if list_ex isupper password then 26 else 0)
     + (if list_ex isdigit password then 10 else 0)
     + (if list_ex isspecial password then 32 else 0)"

definition calculate_password_entropy :: "string \<Rightarrow> real" where
  "calculate_password_entropy password =
     (if charset_size password > 0
      then real (length password) * log 2 (real (charset_size password))
      else 0)"

datatype crack_time = LessThanMinute | Minutes int | Hours int | Days int | Years int

text \<open>\<^verbatim>\<open>2**entropy\<close> is a float power: it raises \<^verbatim>\<open>OverflowError\<close> when the result
  leaves the range of a double, that is from \<^verbatim>\<open>2**1024\<close> on.\<close>

definition crack_time_bucket :: "string \<Rightarrow> real \<Rightarrow> crack_time outcome" where
  "crack_time_bucket password entropy =
     (if entropy \<ge> 1024 then Raise OverflowError
      else
        (let guesses_per_second = 10 ^ 9;
             total_combinations = 2 powr entropy;
             seconds_to_crack = total_combinations / (2 * guesses_per_second)
         in if seconds_to_crack < 60 then Return LessThanMinute
            else if seconds_to_crack < 3600 then Return (Minutes \<lfloor>seconds_to_crack / 60\<rfloor>)
            else if seconds_to_crack < 86400 then Return (Hours \<lfloor>seconds_to_crack / 3600\<rfloor>)
            else if seconds_to_crack < 31536000 then Return (Days \<lfloor>seconds_to_crack / 86400\<rfloor>)
            else Return (Years \<lfloor>seconds_to_crack / 31536000\<rfloor>)))"

fun format_crack_time :: "crack_time \<Rightarrow> string" where
  "format_crack_time LessThanMinute = ''Less than 1 minute''"
| "format_crack_time (Minutes n) = str_int n @ '' minutes''"
| "format_crack_time (Hours n) = str_int n @ '' hours''"
| "format_crack_time (Days n) = str_int n @ '' days''"
| "format_crack_time (Years n) = str_int n @ '' years''"

definition estimate_crack_time :: "string \<Rightarrow> real \<Rightarrow> string outcome" where
  "estimate_crack_time password entropy =
     (case crack_time_bucket password entropy of
        Raise e \<Rightarrow> Raise e
      | Return b \<Rightarrow> Return (format_crack_time b))"

text \<open>The duration, in seconds, that a bucket stands for.\<close>

fun crack_time_seconds :: "crack_time \<Rightarrow> int" where
  "crack_time_seconds LessThanMinute = 0"
| "crack_time_seconds (Minutes n) = n * 60"
| "crack_time_seconds (Hours n) = n * 3600"
| "crack_time_seconds (Days n) = n * 86400"
| "crack_time_seconds (Years n) = n * 31536000"

section \<open>Auxiliary notions and example inputs\<close>

text \<open>The count that a rate-limit key holds at a given time: an absent or expired key
  counts as 0, as \<^verbatim>\<open>_check_rate_limit\<close> reads it.\<close>

definition counter_reads :: "store \<Rightarrow> nat \<Rightarrow> string \<Rightarrow> int \<Rightarrow> bool" where
  "counter_reads st now k c =
     (case redis_get (kv st) now k of
        None \<Rightarrow> c = 0
      | Some (RInt n) \<Rightarrow> n = c
      | Some (RStr s) \<Rightarrow> False
      | Some (RJson d) \<Rightarrow> False)"

definition empty_store :: store where
  "empty_store =
     \<lparr>kv = Map.empty, security_events = [], security_alerts = [], members = (\<lambda>k. {})\<rparr>"

text \<open>A request without headers and without a client address.\<close>

definition bare_request :: request where
  "bare_request = \<lparr>headers = Map.empty, client_host = None\<rparr>"

text \<open>Stand-ins for the external libraries, to run the model on examples: the hash and
  the encryption are the identity and the verifier accepts every code.\<close>

definition accepting_libs :: libs where
  "accepting_libs =
     \<lparr>md5_hexdigest = (\<lambda>s. s),
      fernet_encrypt = (\<lambda>iv s. s),
      fernet_decrypt = (\<lambda>v. case v of RStr s \<Rightarrow> Some s | RInt n \<Rightarrow> None | RJson d \<Rightarrow> None),
      totp_verify = (\<lambda>secret tok now. True),
      provisioning_uri = (\<lambda>secret name issuer. secret)\<rparr>"

definition scenario_critical :: "(string \<times> real) list" where
  "scenario_critical =
     [(''hour_anomaly'', 0), (''new_location'', 1), (''new_device'', 1),
      (''api_call_frequency'', 0), (''data_access_volume'', 0), (''failed_auth_ratio'', 1)]"

definition scenario_low :: "(string \<times> real) list" where
  "scenario_low =
     [(''hour_anomaly'', 0), (''new_location'', 0), (''new_device'', 0),
      (''api_call_frequency'', round_double 0.05),
      (''data_access_volume'', round_double 0.01),
      (''failed_auth_ratio'', 0)]"

text \<open>A user seen before from address \<open>unknown\<close> with an empty user agent.\<close>

definition known_user_store :: store where
  "known_user_store =
     empty_store\<lparr>members := (\<lambda>k. if k = ''user_ips:u'' then {''unknown''}
                                 else if k = ''user_agents:u'' then {[]} else {})\<rparr>"

text \<open>Logging a list of events, one call of \<^verbatim>\<open>_log_security_event\<close> each.\<close>

fun log_each :: "store \<Rightarrow> SecurityEvent list \<Rightarrow> store" where
  "log_each st [] = st"
| "log_each st (ev # evs) = log_each (log_security_event st ev) evs"

definition revocable_payload :: "string \<Rightarrow> jvalue option" where
  "revocable_payload = [''sub'' \<mapsto> JStr ''alice'', ''jti'' \<mapsto> JStr ''abc'']"

text \<open>The key that counts the MFA attempts of a user.\<close>

definition mfa_attempts_key :: "string \<Rightarrow> string" where
  "mfa_attempts_key uid = ''mfa_attempts:'' @ uid"

text \<open>\<open>in_window w e ts\<close>: the first of the times \<open>ts\<close> is before \<open>e\<close>, and each
  later one is less than \<open>w\<close> seconds after the one before it (so it comes before the
  counter that the earlier call has written expires).\<close>

fun in_window :: "nat \<Rightarrow> nat \<Rightarrow> nat list \<Rightarrow> bool" where
  "in_window w e [] = True"
| "in_window w e (t # ts) = (t < e \<and> in_window w (t + w) ts)"

text \<open>MFA validations of one user, one after the other; each has its time, the
  identifier drawn for its event, and the code presented.\<close>

fun mfa_attempts ::
  "libs \<Rightarrow> store \<Rightarrow> string \<Rightarrow> MFAMethod \<Rightarrow> (nat \<times> string \<times> string) list \<Rightarrow> bool outcome list \<times> store" where
  "mfa_attempts L st uid method [] = ([], st)"
| "mfa_attempts L st uid method ((now, eid, tok) # rest) =
     (case validate_mfa_token L st now eid uid tok method of
        (r, st') \<Rightarrow>
          (case mfa_attempts L st' uid method rest of
             (rs, st'') \<Rightarrow> (r # rs, st'')))"

text \<open>The event that a throttled MFA attempt logs.\<close>

definition brute_force_event :: "string \<Rightarrow> string \<Rightarrow> nat \<Rightarrow> SecurityEvent" where
  "brute_force_event eid uid now =
     \<lparr>event_id = eid, user_id = Some uid, event_type = BRUTE_FORCE,
      severity = HIGH, timestamp = now, ip_address = ''unknown'',
      user_agent = ''unknown'',
      details = [(''mfa_brute_force'', DBool True)],
      risk_score = 0.8, geolocation = None\<rparr>"

text \<open>The store in which each of the keys holds the count \<open>c\<close> and expires at \<open>e\<close>.\<close>

definition set_counters :: "store \<Rightarrow> string list \<Rightarrow> int \<Rightarrow> nat \<Rightarrow> store" where
  "set_counters st keys c e =
     st\<lparr>kv := (\<lambda>k. if k \<in> set keys then Some (RInt c, Some e) else kv st k)\<rparr>"

definition ten_attempts :: "(nat \<times> string \<times> string) list" where
  "ten_attempts =
     [(0, ''e0'', ''000000''), (10, ''e1'', ''000001''), (20, ''e2'', ''000002''),
      (30, ''e3'', ''000003''), (40, ''e4'', ''000004''), (50, ''e5'', ''000005''),
      (60, ''e6'', ''000006''), (70, ''e7'', ''000007''), (80, ''e8'', ''000008''),
      (90, ''e9'', ''000009'')]"

text \<open>The count under a key as the limiter reads it (0 for an absent key).\<close>

definition current_count :: "store \<Rightarrow> nat \<Rightarrow> string \<Rightarrow> int" where
  "current_count st now k =
     (case redis_get (kv st) now k of
        None \<Rightarrow> 0
      | Some (RInt n) \<Rightarrow> n
      | Some (RStr s) \<Rightarrow> 0
      | Some (RJson d) \<Rightarrow> 0)"

text \<open>Rate-limited requests of one client for one action, one after the other; each
  has its time and the identifier drawn for its event.\<close>

fun rate_limit_calls ::
  "libs \<Rightarrow> store \<Rightarrow> request \<Rightarrow> string option \<Rightarrow> string \<Rightarrow> (nat \<times> string) list \<Rightarrow> bool outcome list \<times> store" where
  "rate_limit_calls L st rq uid action [] = ([], st)"
| "rate_limit_calls L st rq uid action ((now, eid) # rest) =
     (case advanced_rate_limiting L st now eid rq uid action of
        (r, st') \<Rightarrow>
          (case rate_limit_calls L st' rq uid action rest of
             (rs, st'') \<Rightarrow> (r # rs, st'')))"

text \<open>The counter keys of a request, and the event and the exception of a request
  that is not allowed.\<close>

definition request_keys :: "libs \<Rightarrow> request \<Rightarrow> string option \<Rightarrow> string \<Rightarrow> string list" where
  "request_keys L rq uid action =
     rate_limit_keys L action (get_client_ip rq) uid (user_agent_of rq ''unknown'')"

definition abuse_event :: "string \<Rightarrow> request \<Rightarrow> string option \<Rightarrow> string \<Rightarrow> nat \<Rightarrow> SecurityEvent" where
  "abuse_event eid rq uid action now =
     \<lparr>event_id = eid, user_id = uid, event_type = API_ABUSE,
      severity = MEDIUM, timestamp = now, ip_address = get_client_ip rq,
      user_agent = user_agent_of rq ''unknown'',
      details = [(''action'', DStr action), (''rate_limit_exceeded'', DBool True)],
      risk_score = 0.6, geolocation = None\<rparr>"

definition rate_limit_failure :: "string \<Rightarrow> exn" where
  "rate_limit_failure action =
     (case rate_limits action of
        None \<Rightarrow> KeyError action
      | Some c \<Rightarrow> HTTPException 429 (RateLimitExceeded ''Rate limit exceeded'' action (window c)))"

text \<open>The counter key of a dimension as the persisted layout names it,
  \<^verbatim>\<open>rate_limit:{action}:{dimension}:{identifier}\<close>, and the keys of the dimensions of a
  request: the client address, the user when one is given, and the hash of the user
  agent.\<close>

definition counter_key :: "string \<Rightarrow> string \<Rightarrow> string \<Rightarrow> string" where
  "counter_key action dimension identifier =
     ''rate_limit:'' @ action @ '':'' @ dimension @ '':'' @ identifier"

definition dimension_keys :: "libs \<Rightarrow> request \<Rightarrow> string option \<Rightarrow> string \<Rightarrow> string list" where
  "dimension_keys L rq uid action =
     counter_key action ''ip'' (get_client_ip rq)
     # (case uid of
          Some u \<Rightarrow> (if u = [] then [] else [counter_key action ''user'' u])
        | None \<Rightarrow> [])
     @ [counter_key action ''ua'' (md5_hexdigest L (user_agent_of rq ''unknown''))]"

text \<open>An operation fails when it raises.\<close>

fun fails :: "'a outcome \<Rightarrow> bool" where
  "fails (Raise e) = True"
| "fails (Return x) = False"

definition three_calls :: "(nat \<times> string) list" where
  "three_calls = [(0, ''a''), (1, ''b''), (2, ''c'')]"

text \<open>The lifetime that \<^verbatim>\<open>create_secure_jwt_token\<close> gives a token and its ledger
  entry.\<close>

definition token_lifetime :: "string \<Rightarrow> nat" where
  "token_lifetime token_type =
     (if token_type = ''access'' then access_token_expire else refresh_token_expire)"

text \<open>Sixteen bytes as \<^verbatim>\<open>secrets.token_hex(16)\<close> may draw them, and a payload.\<close>

definition sixteen_bytes :: "nat list" where
  "sixteen_bytes = [3, 141, 59, 26, 53, 58, 97, 93, 238, 46, 26, 43, 38, 32, 79, 50]"

definition alice_payload :: "string \<Rightarrow> jvalue option" where
  "alice_payload = [''sub'' \<mapsto> JStr ''alice'']"

text \<open>A password of 205 exclamation marks.\<close>

definition long_password :: string where
  "long_password = replicate 205 (CHR ''!'')"

text \<open>The seconds that \<^verbatim>\<open>_estimate_crack_time\<close> computes from the entropy, and
  the bucket it chooses for them.\<close>

definition seconds_to_crack :: "real \<Rightarrow> real" where
  "seconds_to_crack entropy = 2 powr entropy / (2 * 10 ^ 9)"

definition bucket_of_seconds :: "real \<Rightarrow> crack_time" where
  "bucket_of_seconds s =
     (if s < 60 then LessThanMinute
      else if s < 3600 then Minutes \<lfloor>s / 60\<rfloor>
      else if s < 86400 then Hours \<lfloor>s / 3600\<rfloor>
      else if s < 31536000 then Days \<lfloor>s / 86400\<rfloor>
      else Years \<lfloor>s / 31536000\<rfloor>)"

section \<open>The event log\<close>

lemma redis_ltrim_from_0:
  "0 \<le> stop \<Longrightarrow> redis_ltrim xs 0 stop = take (nat stop + 1) xs"
  by (cases xs) (auto simp: redis_ltrim_def Let_def min_def nat_add_distrib)

text \<open>Logging puts the event in front and keeps the first 10,001 entries: what is cut
  off is the oldest end of the list, and the order of the rest is untouched.\<close>

lemma security_events_log:
  "security_events (log_security_event st ev) = take 10001 (ev # security_events st)"
  by (simp add: log_security_event_def trigger_security_alert_def Let_def
      redis_lpush_def redis_ltrim_from_0)

lemma security_events_log_length:
  "length (security_events (log_security_event st ev))
     = min (Suc (length (security_events st))) 10001"
  by (simp add: security_events_log)

lemma kv_log_security_event [simp]:
  "kv (log_security_event st ev) = kv st"
  by (simp add: log_security_event_def trigger_security_alert_def Let_def)

lemma length_log_each:
  "length (security_events st) \<le> 10001 \<Longrightarrow>
   length (security_events (log_each st evs))
     = min (length (security_events st) + length evs) 10001"
proof (induction evs arbitrary: st)
  case Nil
  then show ?case by simp
next
  case (Cons ev evs)
  have "length (security_events (log_security_event st ev)) \<le> 10001"
    by (simp add: security_events_log_length)
  then have "length (security_events (log_each (log_security_event st ev) evs))
      = min (length (security_events (log_security_event st ev)) + length evs) 10001"
    by (rule Cons.IH)
  then show ?case
    using Cons.prems by (simp add: security_events_log_length min_def)
qed

text \<open>
  C2 (the log holds at most 10,000 events after every append). \<^verbatim>\<open>LTRIM 0 10000\<close>
  keeps the indices 0 to 10000, which are 10,001 entries: after 10,001 events have been
  logged into an empty log, all 10,001 are in it.
\<close>

theorem event_log_holds_10001:
  "length (security_events (log_each empty_store (replicate 10001 ev))) = 10001"
proof -
  have "length (security_events empty_store) \<le> 10001"
    by (simp add: empty_store_def)
  from length_log_each [OF this, of "replicate 10001 ev"] show ?thesis
    by (simp add: empty_store_def)
qed

section \<open>Double arithmetic: evaluation\<close>

text \<open>A value whose absolute value, scaled by \<open>2 ^ n\<close>, lies between \<open>2 ^ 52\<close> and
  \<open>2 ^ 53\<close> is rounded at that scale.\<close>

lemma round_double_eqI:
  fixes n :: nat
  assumes lo: "2 ^ 52 \<le> \<bar>x\<bar> * 2 ^ n" and hi: "\<bar>x\<bar> * 2 ^ n < 2 ^ 53"
      and n: "n \<le> 1074" and m: "round_half_even (x * 2 ^ n) = m"
  shows "round_double x = of_int m / 2 ^ n"
proof -
  have x0: "x \<noteq> 0" using lo by auto
  have pn: "(2::real) powr (- real n) = 1 / 2 ^ n"
    by (simp add: powr_minus powr_realpow divide_simps)
  have p1: "(2::real) powr (52 - real n) = 2 ^ 52 / 2 ^ n"
    using pn by (simp add: powr_diff powr_realpow)
  have p2: "(2::real) powr (52 - real n + 1) = 2 ^ 53 / 2 ^ n"
    using pn by (simp add: powr_diff powr_add powr_realpow)
  have a: "2 powr (52 - real n) \<le> \<bar>x\<bar>"
    unfolding p1 using lo by (simp add: divide_simps)
  have b: "\<bar>x\<bar> < 2 powr (52 - real n + 1)"
    unfolding p2 using hi by (simp add: divide_simps)
  have "\<lfloor>log 2 \<bar>x\<bar>\<rfloor> = 52 - int n"
  proof (rule floor_unique)
    have "log 2 (2 powr (52 - real n)) \<le> log 2 \<bar>x\<bar>"
      using a x0 by (subst log_le_cancel_iff) auto
    then show "of_int (52 - int n) \<le> log 2 \<bar>x\<bar>" by simp
    have "log 2 \<bar>x\<bar> < log 2 (2 powr (52 - real n + 1))"
      using b x0 by (subst log_less_cancel_iff) auto
    then show "log 2 \<bar>x\<bar> < of_int (52 - int n) + 1" by simp
  qed
  moreover have "max (52 - int n) (- 1022) = 52 - int n" using n by simp
  ultimately have "round_double x
      = of_int (round_half_even (x / 2 powr (of_int (52 - int n) - 52)))
          * 2 powr (of_int (52 - int n) - 52)"
    using x0 by (simp add: round_double_def Let_def)
  also have "of_int (52 - int n) - 52 = - real n" by simp
  finally show ?thesis
    using m by (simp add: pn)
qed

lemma round_half_even_near:
  "\<bar>r - of_int m\<bar> < 1 / 2 \<Longrightarrow> round_half_even r = m"
proof -
  assume h: "\<bar>r - of_int m\<bar> < 1 / 2"
  show ?thesis
  proof (cases "of_int m \<le> r")
    case True
    then have "\<lfloor>r\<rfloor> = m" using h by (intro floor_unique) auto
    then show ?thesis using h True by (simp add: round_half_even_def Let_def)
  next
    case False
    then have "\<lfloor>r\<rfloor> = m - 1" using h by (intro floor_unique) auto
    then show ?thesis using h False by (auto simp: round_half_even_def Let_def)
  qed
qed

lemma round_half_even_tie_up:
  "r = of_int m - 1 / 2 \<Longrightarrow> even m \<Longrightarrow> round_half_even r = m"
proof -
  assume h: "r = of_int m - 1 / 2" and e: "even m"
  have "\<lfloor>r\<rfloor> = m - 1" using h by (intro floor_unique) auto
  then show ?thesis using h e by (auto simp: round_half_even_def Let_def)
qed

lemma round_double_0 [simp]: "round_double 0 = 0"
  by (simp add: round_double_def)

lemma round_double_1 [simp]: "round_double 1 = 1"
proof -
  have "round_double 1 = of_int (2 ^ 52) / 2 ^ 52"
    by (rule round_double_eqI; (rule round_half_even_near)?; simp)
  then show ?thesis by simp
qed

lemma fmul_0 [simp]: "fmul 0 y = 0"
  by (simp add: fmul_def)

lemma fadd_0_0 [simp]: "fadd 0 0 = 0"
  by (simp add: fadd_def)

lemma fdiv_0 [simp]: "fdiv 0 y = 0"
  by (simp add: fdiv_def)

lemma fsub_same [simp]: "fsub x x = 0"
  by (simp add: fsub_def)

text \<open>The doubles of the literals.\<close>

lemma double_0_3: "round_double 0.3 = 5404319552844595 / 2 ^ 54"
  by (rule round_double_eqI [where m = 5404319552844595, simplified]; (rule round_half_even_near)?; simp)

lemma double_0_25: "round_double 0.25 = 4503599627370496 / 2 ^ 54"
  by (rule round_double_eqI [where m = 4503599627370496, simplified]; (rule round_half_even_near)?; simp)

lemma double_0_4: "round_double 0.4 = 7205759403792794 / 2 ^ 54"
  by (rule round_double_eqI [where m = 7205759403792794, simplified]; (rule round_half_even_near)?; simp)

lemma double_0_8: "round_double 0.8 = 7205759403792794 / 2 ^ 53"
  by (rule round_double_eqI [where m = 7205759403792794, simplified]; (rule round_half_even_near)?; simp)

lemma double_0_6: "round_double 0.6 = 5404319552844595 / 2 ^ 53"
  by (rule round_double_eqI [where m = 5404319552844595, simplified]; (rule round_half_even_near)?; simp)

lemma double_0_95: "round_double 0.95 = 8556839292003942 / 2 ^ 53"
  by (rule round_double_eqI [where m = 8556839292003942, simplified]; (rule round_half_even_near)?; simp)

lemma double_0_15: "round_double 0.15 = 5404319552844595 / 2 ^ 55"
  by (rule round_double_eqI [where m = 5404319552844595, simplified]; (rule round_half_even_near)?; simp)

lemma double_0_1: "round_double 0.1 = 7205759403792794 / 2 ^ 56"
  by (rule round_double_eqI [where m = 7205759403792794, simplified]; (rule round_half_even_near)?; simp)

lemma double_0_05: "round_double 0.05 = 7205759403792794 / 2 ^ 57"
  by (rule round_double_eqI [where m = 7205759403792794, simplified]; (rule round_half_even_near)?; simp)

lemma double_0_01: "round_double 0.01 = 5764607523034235 / 2 ^ 59"
  by (rule round_double_eqI [where m = 5764607523034235, simplified]; (rule round_half_even_near)?; simp)

lemma double_0_0085: "round_double 0.0085 = 4899916394579100 / 2 ^ 59"
  by (rule round_double_eqI [where m = 4899916394579100, simplified]; (rule round_half_even_near)?; simp)

lemma double_0_0075: "round_double 0.0075 = 8646911284551352 / 2 ^ 60"
  by (rule round_double_eqI [where m = 8646911284551352, simplified]; (rule round_half_even_near)?; simp)

section \<open>Threat scoring\<close>

text \<open>The steps of the weighted sum of the critical scenario: 0.3, then 0.3 + 0.25 (a
  tie, rounded to the even neighbour), then the sum with 0.4.\<close>

lemma critical_mul_1: "fmul 1 (5404319552844595 / 2 ^ 54) = 5404319552844595 / 2 ^ 54"
  unfolding fmul_def
  by (rule round_double_eqI [where m = 5404319552844595, simplified]; (rule round_half_even_near)?; simp)

lemma critical_add_1: "fadd 0 (5404319552844595 / 2 ^ 54) = 5404319552844595 / 2 ^ 54"
  unfolding fadd_def
  by (rule round_double_eqI [where m = 5404319552844595, simplified]; (rule round_half_even_near)?; simp)

lemma critical_mul_2: "fmul 1 (4503599627370496 / 2 ^ 54) = 4503599627370496 / 2 ^ 54"
  unfolding fmul_def
  by (rule round_double_eqI [where m = 4503599627370496, simplified]; (rule round_half_even_near)?; simp)

lemma critical_add_2: "fadd (5404319552844595 / 2 ^ 54) (4503599627370496 / 2 ^ 54) = 4953959590107546 / 2 ^ 53"
  unfolding fadd_def
  by (rule round_double_eqI [where m = 4953959590107546, simplified]; (rule round_half_even_tie_up)?; simp)

lemma critical_add_3: "fadd (4953959590107546 / 2 ^ 53) 0 = 4953959590107546 / 2 ^ 53"
  unfolding fadd_def
  by (rule round_double_eqI [where m = 4953959590107546, simplified]; (rule round_half_even_near)?; simp)

lemma critical_mul_4: "fmul 1 (7205759403792794 / 2 ^ 54) = 7205759403792794 / 2 ^ 54"
  unfolding fmul_def
  by (rule round_double_eqI [where m = 7205759403792794, simplified]; (rule round_half_even_near)?; simp)

lemma critical_add_4: "fadd (4953959590107546 / 2 ^ 53) (7205759403792794 / 2 ^ 54) = 8556839292003943 / 2 ^ 53"
  unfolding fadd_def
  by (rule round_double_eqI [where m = 8556839292003943, simplified]; (rule round_half_even_near)?; simp)

lemma score_scenario_critical:
  "calculate_risk_score scenario_critical = 8556839292003943 / 2 ^ 53"
proof -
  have w: "weights ''hour_anomaly'' = Some (round_double 0.2)"
          "weights ''new_location'' = Some (5404319552844595 / 2 ^ 54)"
          "weights ''new_device'' = Some (4503599627370496 / 2 ^ 54)"
          "weights ''api_call_frequency'' = Some (round_double 0.15)"
          "weights ''data_access_volume'' = Some (round_double 0.1)"
          "weights ''failed_auth_ratio'' = Some (7205759403792794 / 2 ^ 54)"
    using double_0_3 double_0_25 double_0_4 by (simp_all add: weights_def)
  have "foldl (\<lambda>acc (feature, v).
                 fadd acc
                   (fmul v (case weights feature of Some w \<Rightarrow> w | None \<Rightarrow> round_double 0.1)))
              0 scenario_critical = 8556839292003943 / 2 ^ 53"
    unfolding scenario_critical_def
    by (simp only: foldl.simps prod.case w option.case fmul_0 fadd_0_0
        critical_mul_1 critical_add_1 critical_mul_2 critical_add_2 critical_add_3
        critical_mul_4 critical_add_4)
  then show ?thesis
    by (simp add: calculate_risk_score_def)
qed

text \<open>The steps of the weighted sum of the low scenario: 0.05 * 0.15, 0.01 * 0.1 and
  their sum (a tie again).\<close>

lemma low_mul_1: "fmul (7205759403792794 / 2 ^ 57) (5404319552844595 / 2 ^ 55) = 8646911284551352 / 2 ^ 60"
  unfolding fmul_def
  by (rule round_double_eqI [where m = 8646911284551352, simplified]; (rule round_half_even_near)?; simp)

lemma low_add_1: "fadd 0 (8646911284551352 / 2 ^ 60) = 8646911284551352 / 2 ^ 60"
  unfolding fadd_def
  by (rule round_double_eqI [where m = 8646911284551352, simplified]; (rule round_half_even_near)?; simp)

lemma low_mul_2: "fmul (5764607523034235 / 2 ^ 59) (7205759403792794 / 2 ^ 56) = 4611686018427388 / 2 ^ 62"
  unfolding fmul_def
  by (rule round_double_eqI [where m = 4611686018427388, simplified]; (rule round_half_even_near)?; simp)

lemma low_add_2: "fadd (8646911284551352 / 2 ^ 60) (4611686018427388 / 2 ^ 62) = 4899916394579100 / 2 ^ 59"
  unfolding fadd_def
  by (rule round_double_eqI [where m = 4899916394579100, simplified]; (rule round_half_even_tie_up)?; simp)

lemma low_add_3: "fadd (4899916394579100 / 2 ^ 59) 0 = 4899916394579100 / 2 ^ 59"
  unfolding fadd_def
  by (rule round_double_eqI [where m = 4899916394579100, simplified]; (rule round_half_even_near)?; simp)

lemma score_scenario_low_value:
  "calculate_risk_score scenario_low = 4899916394579100 / 2 ^ 59"
proof -
  have w: "weights ''hour_anomaly'' = Some (round_double 0.2)"
          "weights ''new_location'' = Some (round_double 0.3)"
          "weights ''new_device'' = Some (round_double 0.25)"
          "weights ''api_call_frequency'' = Some (5404319552844595 / 2 ^ 55)"
          "weights ''data_access_volume'' = Some (7205759403792794 / 2 ^ 56)"
          "weights ''failed_auth_ratio'' = Some (round_double 0.4)"
    using double_0_15 double_0_1 by (simp_all add: weights_def)
  have "foldl (\<lambda>acc (feature, v).
                 fadd acc
                   (fmul v (case weights feature of Some w \<Rightarrow> w | None \<Rightarrow> round_double 0.1)))
              0 scenario_low = 4899916394579100 / 2 ^ 59"
    unfolding scenario_low_def
    by (simp only: foldl.simps prod.case w option.case fmul_0 fadd_0_0
        double_0_05 double_0_01 low_mul_1 low_add_1 low_mul_2 low_add_2 low_add_3)
  then show ?thesis
    by (simp add: calculate_risk_score_def)
qed

lemma score_scenario_low: "calculate_risk_score scenario_low = round_double 0.0085"
  by (simp only: score_scenario_low_value double_0_0085)

lemma features_critical_example:
  "extract_behavioral_features empty_store 12 ''u'' (get_client_ip bare_request)
     (user_agent_of bare_request []) [''failed_auths'' \<mapsto> 1, ''total_auths'' \<mapsto> 1]
   = scenario_critical"
  by (simp add: extract_behavioral_features_def empty_store_def get_user_typical_hours_def
      get_user_historical_ips_def get_user_historical_agents_def activity_get_def
      scenario_critical_def fdiv_def)

lemma features_low_example:
  "extract_behavioral_features known_user_store 12 ''u'' (get_client_ip bare_request)
     (user_agent_of bare_request []) [''calls_per_minute'' \<mapsto> 5, ''data_accessed_mb'' \<mapsto> 10]
   = scenario_low"
  by (simp add: extract_behavioral_features_def known_user_store_def empty_store_def
      get_user_typical_hours_def get_user_historical_ips_def get_user_historical_agents_def
      activity_get_def scenario_low_def get_client_ip_def bare_request_def user_agent_of_def
      fdiv_def)

lemma level_scenario_critical:
  "determine_threat_level (8556839292003943 / 2 ^ 53) = CRITICAL"
  using double_0_8 by (simp add: determine_threat_level_def)

lemma level_scenario_low:
  "determine_threat_level (4899916394579100 / 2 ^ 59) = LOW"
  using double_0_8 double_0_6 double_0_3
  by (simp add: determine_threat_level_def)

text \<open>
  C6, as amended. When the extracted features are new location 1, new device 1,
  failed-auth ratio 1 and 0 otherwise, the composite score is the double
  8556839292003943 / 2^53, which prints as 0.9500000000000001 and lies one unit in the
  last place above the double of 0.95; the level is critical and the response requires
  blocking.
\<close>

theorem critical_scenario:
  assumes "extract_behavioral_features st hour uid (get_client_ip rq) (user_agent_of rq [])
             activity = scenario_critical"
  shows "calculate_risk_score scenario_critical = 8556839292003943 / 2 ^ 53
     \<and> calculate_risk_score scenario_critical = round_double 0.95 + 1 / 2 ^ 53
     \<and> determine_threat_level (calculate_risk_score scenario_critical) = CRITICAL
     \<and> resp_risk_score (fst (ai_powered_threat_detection st now eid hour uid rq activity))
         = 8556839292003943 / 2 ^ 53
     \<and> resp_threat_level (fst (ai_powered_threat_detection st now eid hour uid rq activity))
         = ''critical''
     \<and> blocking_required (fst (ai_powered_threat_detection st now eid hour uid rq activity))
         = True"
proof -
  let ?r = "fst (ai_powered_threat_detection st now eid hour uid rq activity)"
  have a: "calculate_risk_score scenario_critical = round_double 0.95 + 1 / 2 ^ 53"
    using score_scenario_critical double_0_95 by simp
  have l: "determine_threat_level (calculate_risk_score scenario_critical) = CRITICAL"
    by (simp only: score_scenario_critical level_scenario_critical)
  have r1: "resp_risk_score ?r = calculate_risk_score scenario_critical"
    using assms by (simp add: ai_powered_threat_detection_def Let_def)
  have r2: "resp_threat_level ?r = ''critical''"
    using assms by (simp add: ai_powered_threat_detection_def Let_def l)
  have r3: "blocking_required ?r = True"
    using assms by (simp add: ai_powered_threat_detection_def Let_def l)
  show ?thesis
    using a l r1 r2 r3 score_scenario_critical by (simp only:)
qed

theorem critical_scenario_witness:
  "extract_behavioral_features empty_store 12 ''u'' (get_client_ip bare_request)
     (user_agent_of bare_request []) [''failed_auths'' \<mapsto> 1, ''total_auths'' \<mapsto> 1]
   = scenario_critical
   \<and> blocking_required (fst (ai_powered_threat_detection empty_store 0 ''e'' 12 ''u''
        bare_request [''failed_auths'' \<mapsto> 1, ''total_auths'' \<mapsto> 1])) = True"
  using critical_scenario [OF features_critical_example, where now = 0 and eid = "''e''"]
    features_critical_example
  by simp

text \<open>The score of that scenario is neither the double of 0.95 nor the number 0.95.\<close>

theorem critical_scenario_score_differs:
  "calculate_risk_score scenario_critical \<noteq> round_double 0.95
   \<and> calculate_risk_score scenario_critical \<noteq> 0.95"
  using score_scenario_critical double_0_95 by simp

text \<open>
  C9, as amended. When the extracted features are call frequency 0.05, data volume 0.01
  and 0 otherwise, the composite score is the double of 0.0085 (0.05 * 0.15 + 0.01 * 0.1),
  the level is low, the response does not require blocking and nothing is logged.
\<close>

theorem low_scenario:
  assumes "extract_behavioral_features st hour uid (get_client_ip rq) (user_agent_of rq [])
             activity = scenario_low"
  shows "calculate_risk_score scenario_low = round_double 0.0085
     \<and> determine_threat_level (calculate_risk_score scenario_low) = LOW
     \<and> resp_risk_score (fst (ai_powered_threat_detection st now eid hour uid rq activity))
         = round_double 0.0085
     \<and> resp_threat_level (fst (ai_powered_threat_detection st now eid hour uid rq activity))
         = ''low''
     \<and> blocking_required (fst (ai_powered_threat_detection st now eid hour uid rq activity))
         = False
     \<and> snd (ai_powered_threat_detection st now eid hour uid rq activity) = st"
proof -
  have l: "determine_threat_level (calculate_risk_score scenario_low) = LOW"
    by (simp only: score_scenario_low_value level_scenario_low)
  show ?thesis
    using assms l
    by (simp add: ai_powered_threat_detection_def Let_def score_scenario_low)
qed

theorem low_scenario_witness:
  "extract_behavioral_features known_user_store 12 ''u'' (get_client_ip bare_request)
     (user_agent_of bare_request []) [''calls_per_minute'' \<mapsto> 5, ''data_accessed_mb'' \<mapsto> 10]
   = scenario_low
   \<and> blocking_required (fst (ai_powered_threat_detection known_user_store 0 ''e'' 12 ''u''
        bare_request [''calls_per_minute'' \<mapsto> 5, ''data_accessed_mb'' \<mapsto> 10])) = False"
  using low_scenario [OF features_low_example, where now = 0 and eid = "''e''"]
    features_low_example
  by simp

text \<open>The score of that scenario is not the double of 0.0075, which is the contribution
  of the call frequency alone; it is more than 0.0009 away from 0.0075.\<close>

theorem low_scenario_score_differs:
  "calculate_risk_score scenario_low \<noteq> round_double 0.0075
   \<and> 0.0009 < \<bar>calculate_risk_score scenario_low - 0.0075\<bar>"
  using score_scenario_low_value double_0_0075 by simp

section \<open>Token validation\<close>

lemma validate_try_decoded:
  assumes "jwt_decode tok key True now = Inr p"
  shows "validate_jwt_token_try key st now tok =
     (case p ''jti'' of
        None \<Rightarrow> Return p
      | Some jti \<Rightarrow>
          (if jvalue_truthy jti then
             (case redis_get (kv st) now (''jwt:'' @ format_jvalue jti) of
                None \<Rightarrow> Raise (HTTPException 401 (Detail ''Token has been revoked''))
              | Some token_data \<Rightarrow>
                  (if \<not> rvalue_truthy token_data
                   then Raise (HTTPException 401 (Detail ''Token has been revoked''))
                   else Return p))
           else Return p))"
  using assms by (simp add: validate_jwt_token_try_def)

lemma validate_Return_try:
  "validate_jwt_token key st now tok = Return p
     \<longleftrightarrow> validate_jwt_token_try key st now tok = Return p"
  by (auto simp: validate_jwt_token_def split: outcome.splits)

lemma validate_Return_decoded:
  assumes "validate_jwt_token key st now tok = Return p"
  shows "jwt_decode tok key True now = Inr p"
  using assms
  by (auto simp: validate_Return_try validate_jwt_token_try_def
      split: sum.splits option.splits if_splits)

text \<open>A token whose signature and claims verify and that carries no \<^verbatim>\<open>jti\<close>, or
  an empty one, is accepted without any look at the ledger.\<close>

lemma validate_without_jti:
  assumes "jwt_decode tok key True now = Inr p"
      and "p ''jti'' = None \<or> (\<exists>j. p ''jti'' = Some j \<and> \<not> jvalue_truthy j)"
  shows "validate_jwt_token key st now tok = Return p"
  using assms by (auto simp: validate_jwt_token_def validate_try_decoded)

text \<open>What is raised for a token without a ledger entry is not the 401 of the body
  but the \<^verbatim>\<open>AttributeError\<close> of the handler lookup.\<close>

lemma validate_revoked_AttributeError:
  assumes "jwt_decode tok key True now = Inr p"
      and "p ''jti'' = Some j"
      and "jvalue_truthy j"
      and "redis_get (kv st) now (''jwt:'' @ format_jvalue j) = None"
  shows "validate_jwt_token key st now tok = Raise (AttributeError ''JWTError'')"
  using assms by (simp add: validate_jwt_token_def validate_try_decoded)

text \<open>
  C1, as amended. For a token whose signature and claims verify and whose \<^verbatim>\<open>jti\<close> is
  truthy: when the ledger has no entry under \<^verbatim>\<open>jwt:{jti}\<close>, validation fails and the
  payload is not returned; and when validation returns the payload, the entry exists.
\<close>

theorem validate_requires_ledger_entry:
  assumes "jwt_decode tok key True now = Inr p"
      and "p ''jti'' = Some j"
      and "jvalue_truthy j"
  shows "(redis_get (kv st) now (''jwt:'' @ format_jvalue j) = None \<longrightarrow>
            fails (validate_jwt_token key st now tok))
       \<and> (validate_jwt_token key st now tok = Return p \<longrightarrow>
            redis_get (kv st) now (''jwt:'' @ format_jvalue j) \<noteq> None)"
  using assms
  by (auto simp: validate_jwt_token_def validate_try_decoded split: option.splits)

theorem validate_requires_ledger_entry_witness:
  "jwt_decode (jwt_encode revocable_payload ''k'') ''k'' True 0 = Inr revocable_payload
   \<and> revocable_payload ''jti'' = Some (JStr ''abc'')
   \<and> jvalue_truthy (JStr ''abc'')
   \<and> redis_get (kv empty_store) 0 (''jwt:'' @ format_jvalue (JStr ''abc'')) = None
   \<and> fails (validate_jwt_token ''k'' empty_store 0 (jwt_encode revocable_payload ''k''))"
  using validate_requires_ledger_entry
    [of "jwt_encode revocable_payload ''k''" "''k''" 0 revocable_payload "JStr ''abc''" empty_store]
  by (simp add: jwt_encode_def revocable_payload_def empty_store_def redis_get_def)

text \<open>A token signed with the manager's key that carries no \<^verbatim>\<open>jti\<close> is accepted
  although the store holds no entry at all.\<close>

theorem validate_accepts_token_without_jti:
  "validate_jwt_token ''k'' empty_store 0 (jwt_encode [''sub'' \<mapsto> JStr ''alice''] ''k'')
     = Return [''sub'' \<mapsto> JStr ''alice'']
   \<and> kv empty_store = Map.empty"
  by (simp add: validate_jwt_token_def validate_jwt_token_try_def jwt_encode_def
      empty_store_def)

section \<open>Rate limiting: the failure raised\<close>

text \<open>For an action of the policy table, a failed check logs an API-abuse event of
  medium severity and raises status 429 with \<^verbatim>\<open>retry_after\<close> the action's window.\<close>

lemma rate_limit_trip_listed:
  assumes "check_each st now action
             (rate_limit_keys L action (get_client_ip rq) uid (user_agent_of rq ''unknown''))
           = Return False"
      and "rate_limits action = Some c"
  shows "fst (advanced_rate_limiting L st now eid rq uid action)
           = Raise (HTTPException 429 (RateLimitExceeded ''Rate limit exceeded'' action (window c)))
       \<and> event_type (hd (security_events (snd (advanced_rate_limiting L st now eid rq uid action))))
           = API_ABUSE
       \<and> severity (hd (security_events (snd (advanced_rate_limiting L st now eid rq uid action))))
           = MEDIUM"
  using assms by (simp add: advanced_rate_limiting_def Let_def security_events_log)

section \<open>Multi-factor authentication without an active secret\<close>

lemma setup_totp_mfa_keeps_secret:
  "redis_get (kv (snd (setup_totp_mfa L st t uid secret iv draws))) now (''mfa_secret:'' @ uid')
     = redis_get (kv st) now (''mfa_secret:'' @ uid')"
  by (simp add: setup_totp_mfa_def Let_def redis_setex_def redis_get_def)

lemma setup_totp_mfa_keeps_attempts:
  "counter_reads (snd (setup_totp_mfa L st t uid secret iv draws)) now (''mfa_attempts:'' @ uid') c
     = counter_reads st now (''mfa_attempts:'' @ uid') c"
  by (simp add: setup_totp_mfa_def Let_def redis_setex_def redis_get_def counter_reads_def)

lemma validate_mfa_token_no_secret:
  assumes "redis_get (kv st) now (''mfa_secret:'' @ uid) = None"
      and "counter_reads st now (''mfa_attempts:'' @ uid) c"
  shows "fst (validate_mfa_token L st now eid uid tok method) = Return False"
  using assms
  by (auto simp: validate_mfa_token_def counter_reads_def check_rate_limit_def
      increment_rate_limit_counter_def redis_incr_def redis_expire_def redis_get_def
      validate_totp_token_def Let_def
      split: option.splits rvalue.splits if_splits prod.splits)

text \<open>
  C8. Where no secret is stored under \<^verbatim>\<open>mfa_secret:{user_id}\<close> (and the attempt counter
  holds a count), validation returns false for every code, every method and every
  verifier; enrollment writes the secret under \<^verbatim>\<open>mfa_setup:{user_id}\<close> only, so
  validation after enrollment returns false as well.
\<close>

theorem mfa_validation_without_active_secret:
  assumes "redis_get (kv st) now (''mfa_secret:'' @ uid) = None"
      and "counter_reads st now (''mfa_attempts:'' @ uid) c"
  shows "fst (validate_mfa_token L st now eid uid tok method) = Return False
     \<and> fst (validate_mfa_token L (snd (setup_totp_mfa L st t uid secret iv draws))
              now eid uid tok method) = Return False
     \<and> kv (snd (setup_totp_mfa L st t uid secret iv draws)) (''mfa_setup:'' @ uid)
         = Some (RStr (fernet_encrypt L iv secret), Some (t + 300))
     \<and> redis_get (kv (snd (setup_totp_mfa L st t uid secret iv draws))) now
         (''mfa_secret:'' @ uid) = None"
proof -
  let ?st' = "snd (setup_totp_mfa L st t uid secret iv draws)"
  have a: "redis_get (kv ?st') now (''mfa_secret:'' @ uid) = None"
    using assms(1) setup_totp_mfa_keeps_secret [of L st t uid secret iv draws now uid]
    by simp
  have b: "counter_reads ?st' now (''mfa_attempts:'' @ uid) c"
    using assms(2) setup_totp_mfa_keeps_attempts [of L st t uid secret iv draws now uid c]
    by simp
  have c: "kv ?st' (''mfa_setup:'' @ uid)
             = Some (RStr (fernet_encrypt L iv secret), Some (t + 300))"
    by (simp add: setup_totp_mfa_def Let_def redis_setex_def)
  show ?thesis
    using validate_mfa_token_no_secret [OF assms] validate_mfa_token_no_secret [OF a b] a c
    by simp
qed

theorem mfa_validation_without_active_secret_witness:
  "redis_get (kv empty_store) 0 (''mfa_secret:'' @ ''u'') = None
   \<and> counter_reads empty_store 0 (''mfa_attempts:'' @ ''u'') 0
   \<and> fst (validate_mfa_token accepting_libs
            (snd (setup_totp_mfa accepting_libs empty_store 0 ''u'' ''JBSWY3DPEHPK3PXP'' [] []))
            0 ''e'' ''u'' ''123456'' TOTP) = Return False"
  using mfa_validation_without_active_secret
    [of empty_store 0 "''u''" 0 accepting_libs "''e''" "''123456''" TOTP 0
        "''JBSWY3DPEHPK3PXP''" "[]" "[]"]
  by (simp add: empty_store_def redis_get_def counter_reads_def)

section \<open>Counters\<close>

lemma set_counters_Nil [simp]: "set_counters st [] c e = st"
  by (simp add: set_counters_def)

lemma set_counters_again [simp]:
  "set_counters (set_counters st keys c e) keys c' e' = set_counters st keys c' e'"
  by (simp add: set_counters_def fun_eq_iff)

lemma set_counters_Cons:
  "set_counters (set_counters st [k] c e) keys c e = set_counters st (k # keys) c e"
  by (simp add: set_counters_def fun_eq_iff)

lemma set_counters_fields [simp]:
  "security_events (set_counters st keys c e) = security_events st"
  "security_alerts (set_counters st keys c e) = security_alerts st"
  "members (set_counters st keys c e) = members st"
  by (simp_all add: set_counters_def)

lemma counter_reads_set_counters:
  "counter_reads (set_counters st keys c e) t k c'
     = (if k \<in> set keys then (if t \<le> e then c' = c else c' = 0) else counter_reads st t k c')"
  by (auto simp: counter_reads_def set_counters_def redis_get_def)

lemma requests_pos: "0 < requests (rate_limits_get action)"
  by (simp add: rate_limits_get_def rate_limits_def)

lemma check_rate_limit_counter:
  assumes "counter_reads st now k c" and "0 \<le> c"
  shows "check_rate_limit st now k action = Return (c < requests (rate_limits_get action))"
  using assms requests_pos [of action]
  by (auto simp: check_rate_limit_def counter_reads_def Let_def split: option.splits rvalue.splits)

lemma set_counters_single:
  "set_counters st [k] c e = st\<lparr>kv := (kv st)(k \<mapsto> (RInt c, Some e))\<rparr>"
  by (simp add: set_counters_def fun_upd_def)

lemma redis_incr_expire:
  assumes "counter_reads st now k c"
  shows "case redis_incr (kv st) now k of
           Some m \<Rightarrow> redis_expire m now k w = (kv st)(k \<mapsto> (RInt (c + 1), Some (now + w)))
         | None \<Rightarrow> False"
  using assms
  by (auto simp: counter_reads_def redis_incr_def redis_expire_def redis_get_def
      split: option.splits rvalue.splits if_splits)

lemma increment_counter:
  assumes "counter_reads st now k c"
  shows "increment_rate_limit_counter st now k action
           = (Return (), set_counters st [k] (c + 1) (now + window (rate_limits_get action)))"
  using redis_incr_expire [OF assms, of "window (rate_limits_get action)"]
  by (simp add: increment_rate_limit_counter_def Let_def set_counters_single split: option.splits)

lemma counter_reads_log [simp]:
  "counter_reads (log_security_event st ev) now k c = counter_reads st now k c"
  by (simp add: counter_reads_def)

lemma counter_reads_empty_store: "counter_reads empty_store now k 0"
  by (simp add: counter_reads_def empty_store_def redis_get_def)

lemma sorted_in_window:
  "sorted (t # ts) \<Longrightarrow> \<forall>x\<in>set ts. x < t + w \<Longrightarrow> in_window w (t + w) ts"
proof (induction ts arbitrary: t)
  case Nil
  then show ?case by simp
next
  case (Cons u us)
  have "in_window w (u + w) us"
    using Cons.prems by (intro Cons.IH) auto
  then show ?case using Cons.prems by simp
qed


lemma last_ge_first: "sorted (t # ts) \<Longrightarrow> t \<le> last (t # ts)"
  by (induction ts arbitrary: t) auto

section \<open>Throttling of MFA attempts\<close>

lemma validate_totp_token_set_counters:
  "validate_totp_token L (set_counters st [mfa_attempts_key u] c e) now uid tok
     = validate_totp_token L st now uid tok"
  by (simp add: validate_totp_token_def mfa_attempts_key_def redis_get_def set_counters_def)

lemma validate_mfa_token_allowed:
  assumes "counter_reads st now (mfa_attempts_key uid) c" and "0 \<le> c" and "c < 10"
  shows "validate_mfa_token L st now eid uid tok m
           = (Return (m = TOTP \<and> validate_totp_token L st now uid tok),
              set_counters st [mfa_attempts_key uid] (c + 1) (now + 300))"
proof -
  have q: "requests (rate_limits_get ''mfa_attempt'') = 10" "window (rate_limits_get ''mfa_attempt'') = 300"
    by (simp_all add: rate_limits_get_def rate_limits_def)
  have chk: "check_rate_limit st now (mfa_attempts_key uid) ''mfa_attempt'' = Return True"
    using check_rate_limit_counter [OF assms(1,2), of "''mfa_attempt''"] assms(3) q by simp
  have inc: "increment_rate_limit_counter st now (mfa_attempts_key uid) ''mfa_attempt''
           = (Return (), set_counters st [mfa_attempts_key uid] (c + 1) (now + 300))"
    using increment_counter [OF assms(1), of "''mfa_attempt''"] q by simp
  show ?thesis
    unfolding validate_mfa_token_def mfa_attempts_key_def [symmetric] Let_def
    by (simp add: chk inc validate_totp_token_set_counters)
qed

lemma validate_mfa_token_throttled:
  assumes "counter_reads st now (mfa_attempts_key uid) c" and "10 \<le> c"
  shows "validate_mfa_token L st now eid uid tok m
           = (Return False, log_security_event st (brute_force_event eid uid now))"
proof -
  have q: "requests (rate_limits_get ''mfa_attempt'') = 10"
    by (simp add: rate_limits_get_def rate_limits_def)
  have chk: "check_rate_limit st now (mfa_attempts_key uid) ''mfa_attempt'' = Return False"
    using check_rate_limit_counter [OF assms(1), of "''mfa_attempt''"] assms(2) q by simp
  show ?thesis
    unfolding validate_mfa_token_def mfa_attempts_key_def [symmetric] Let_def
    by (simp add: chk brute_force_event_def)
qed

lemma mfa_attempts_run:
  assumes "counter_reads st now (mfa_attempts_key uid) c" and "0 \<le> c"
      and "c + 1 + int (length rest) \<le> 10"
      and "in_window 300 (now + 300) (map fst rest)"
  shows "mfa_attempts L st uid m ((now, eid, tok) # rest)
           = (map (\<lambda>(now', eid', tok'). Return (m = TOTP \<and> validate_totp_token L st now' uid tok'))
                  ((now, eid, tok) # rest),
              set_counters st [mfa_attempts_key uid] (c + 1 + int (length rest))
                (last (now # map fst rest) + 300))"
  using assms
proof (induction rest arbitrary: st now eid tok c)
  case Nil
  have "c < 10" using Nil.prems(3) by simp
  then show ?case
    using validate_mfa_token_allowed [OF Nil.prems(1,2), of L eid tok m] by simp
next
  case (Cons a rest)
  obtain now' eid' tok' where a: "a = (now', eid', tok')" by (cases a)
  let ?st1 = "set_counters st [mfa_attempts_key uid] (c + 1) (now + 300)"
  have step: "validate_mfa_token L st now eid uid tok m
           = (Return (m = TOTP \<and> validate_totp_token L st now uid tok), ?st1)"
    using Cons.prems by (intro validate_mfa_token_allowed) auto
  have rd: "counter_reads ?st1 now' (mfa_attempts_key uid) (c + 1)"
    using Cons.prems(4) a by (simp add: counter_reads_set_counters)
  have ih: "mfa_attempts L ?st1 uid m ((now', eid', tok') # rest)
           = (map (\<lambda>(now', eid', tok'). Return (m = TOTP \<and> validate_totp_token L ?st1 now' uid tok'))
                  ((now', eid', tok') # rest),
              set_counters ?st1 [mfa_attempts_key uid] (c + 1 + 1 + int (length rest))
                 (last (now' # map fst rest) + 300))"
    using Cons.prems a by (intro Cons.IH [OF rd]) auto
  show ?case
    using step ih a
    by (simp add: validate_totp_token_set_counters add.commute add.left_commute)
qed

text \<open>
  C7. Starting with no attempts counted, ten MFA validations made in time order within
  300 seconds of the first each return what the verification of the code returns; an
  eleventh attempt within those 300 seconds returns false whatever the code and the
  verifier are, and the event it logs is a brute-force event of high severity, first in
  the log.
\<close>

theorem mfa_eleventh_attempt_throttled:
  assumes "counter_reads st now (mfa_attempts_key uid) 0"
      and "length rest = 9"
      and "sorted (now # map fst rest @ [t])"
      and "t < now + 300"
  shows "fst (mfa_attempts L st uid TOTP ((now, eid, tok) # rest))
           = map (\<lambda>(now', eid', tok'). Return (validate_totp_token L st now' uid tok'))
               ((now, eid, tok) # rest)
       \<and> validate_mfa_token L (snd (mfa_attempts L st uid TOTP ((now, eid, tok) # rest)))
             t eid11 uid tok11 m
           = (Return False,
              log_security_event (snd (mfa_attempts L st uid TOTP ((now, eid, tok) # rest)))
                (brute_force_event eid11 uid t))
       \<and> event_type (brute_force_event eid11 uid t) = BRUTE_FORCE
       \<and> severity (brute_force_event eid11 uid t) = HIGH
       \<and> hd (security_events (snd (validate_mfa_token L
               (snd (mfa_attempts L st uid TOTP ((now, eid, tok) # rest))) t eid11 uid tok11 m)))
           = brute_force_event eid11 uid t"
proof -
  let ?run = "mfa_attempts L st uid TOTP ((now, eid, tok) # rest)"
  let ?e = "last (now # map fst rest) + 300"
  have srt: "sorted (now # map fst rest)" and le_t: "\<forall>x\<in>set (now # map fst rest). x \<le> t"
    using assms(3) by (auto simp: sorted_append)
  have "\<forall>x\<in>set (map fst rest). x < now + 300"
    using le_t assms(4) by auto
  then have win: "in_window 300 (now + 300) (map fst rest)"
    using srt by (intro sorted_in_window) auto
  have run: "?run = (map (\<lambda>(now', eid', tok'). Return (TOTP = TOTP \<and> validate_totp_token L st now' uid tok'))
                  ((now, eid, tok) # rest),
              set_counters st [mfa_attempts_key uid] (0 + 1 + int (length rest)) ?e)"
    using assms(1,2) win by (intro mfa_attempts_run) auto
  have fin: "snd ?run = set_counters st [mfa_attempts_key uid] 10 ?e"
    by (subst run) (simp add: assms(2))
  have res: "fst ?run = map (\<lambda>(now', eid', tok'). Return (validate_totp_token L st now' uid tok'))
               ((now, eid, tok) # rest)"
    by (subst run) simp
  have "t < ?e"
    using last_ge_first [OF srt] assms(4) by simp
  then have rd: "counter_reads (snd ?run) t (mfa_attempts_key uid) 10"
    unfolding fin by (simp add: counter_reads_set_counters)
  have thr: "validate_mfa_token L (snd ?run) t eid11 uid tok11 m
           = (Return False, log_security_event (snd ?run) (brute_force_event eid11 uid t))"
    using rd by (intro validate_mfa_token_throttled) auto
  have ev: "event_type (brute_force_event eid11 uid t) = BRUTE_FORCE"
           "severity (brute_force_event eid11 uid t) = HIGH"
    by (simp_all add: brute_force_event_def)
  have hd: "hd (security_events (snd (validate_mfa_token L (snd ?run) t eid11 uid tok11 m)))
           = brute_force_event eid11 uid t"
    unfolding thr by (simp add: security_events_log)
  show ?thesis
    using res thr ev hd by blast
qed

theorem mfa_eleventh_attempt_throttled_witness:
  "counter_reads empty_store 0 (mfa_attempts_key ''u'') 0
   \<and> length (tl ten_attempts) = 9
   \<and> sorted (0 # map fst (tl ten_attempts) @ [100])
   \<and> (100::nat) < 0 + 300
   \<and> hd ten_attempts = (0, ''e0'', ''000000'')
   \<and> fst (validate_mfa_token accepting_libs
            (snd (mfa_attempts accepting_libs empty_store ''u'' TOTP ten_attempts))
            100 ''e10'' ''u'' ''000010'' TOTP) = Return False"
  using mfa_eleventh_attempt_throttled
    [of empty_store 0 "''u''" "tl ten_attempts" 100 accepting_libs "''e0''" "''000000''"
        "''e10''" "''000010''" TOTP]
  by (simp add: ten_attempts_def counter_reads_def redis_get_def empty_store_def)

section \<open>Rate limiting: quota, block and reset\<close>

lemma distinct_request_keys: "distinct (request_keys L rq uid action)"
  by (simp add: request_keys_def rate_limit_keys_def split: option.splits)

lemma request_keys_nonempty: "request_keys L rq uid action \<noteq> []"
  by (simp add: request_keys_def rate_limit_keys_def)

lemma check_each_counters:
  assumes "\<forall>k\<in>set keys. counter_reads st now k c" and "0 \<le> c"
  shows "check_each st now action keys
           = Return (keys = [] \<or> c < requests (rate_limits_get action))"
  using assms
  by (induction keys) (auto simp: check_rate_limit_counter)

lemma check_rate_limit_True_count:
  assumes "check_rate_limit st now k action = Return True"
  shows "current_count st now k < requests (rate_limits_get action)"
  using assms requests_pos [of action]
  by (auto simp: check_rate_limit_def current_count_def Let_def
      split: option.splits rvalue.splits)

lemma check_each_True_counts:
  assumes "check_each st now action keys = Return True"
  shows "list_all (\<lambda>k. current_count st now k < requests (rate_limits_get action)) keys"
  using assms
proof (induction keys)
  case Nil
  then show ?case by simp
next
  case (Cons k keys)
  from Cons.prems have "check_rate_limit st now k action = Return True"
    and "check_each st now action keys = Return True"
    by (auto split: outcome.splits if_splits)
  then show ?case
    using Cons.IH by (simp add: check_rate_limit_True_count)
qed

lemma increment_each_counters:
  assumes "distinct keys" and "\<forall>k\<in>set keys. counter_reads st now k c"
  shows "increment_each st now action keys
           = (Return (), set_counters st keys (c + 1) (now + window (rate_limits_get action)))"
  using assms
proof (induction keys arbitrary: st)
  case Nil
  then show ?case by simp
next
  case (Cons k keys)
  let ?st1 = "set_counters st [k] (c + 1) (now + window (rate_limits_get action))"
  have "\<forall>k'\<in>set keys. counter_reads ?st1 now k' c"
    using Cons.prems by (auto simp: counter_reads_set_counters)
  then have "increment_each ?st1 now action keys
           = (Return (), set_counters ?st1 keys (c + 1) (now + window (rate_limits_get action)))"
    using Cons.prems by (intro Cons.IH) auto
  moreover have "increment_rate_limit_counter st now k action = (Return (), ?st1)"
    using Cons.prems by (intro increment_counter) auto
  ultimately show ?case
    by (simp add: set_counters_Cons)
qed

lemma advanced_rate_limiting_allowed:
  assumes "\<forall>k\<in>set (request_keys L rq uid action). counter_reads st now k c"
      and "0 \<le> c" and "c < requests (rate_limits_get action)"
  shows "advanced_rate_limiting L st now eid rq uid action
           = (Return True, set_counters st (request_keys L rq uid action) (c + 1)
                (now + window (rate_limits_get action)))"
  using assms check_each_counters [OF assms(1,2), of action]
    increment_each_counters [OF distinct_request_keys assms(1), of action]
  by (simp add: advanced_rate_limiting_def Let_def request_keys_def [symmetric])

lemma advanced_rate_limiting_blocked:
  assumes "\<forall>k\<in>set (request_keys L rq uid action). counter_reads st now k c"
      and "requests (rate_limits_get action) \<le> c"
  shows "advanced_rate_limiting L st now eid rq uid action
           = (Raise (rate_limit_failure action),
              log_security_event st (abuse_event eid rq uid action now))"
proof -
  have "0 \<le> c" using assms(2) requests_pos [of action] by simp
  then have "check_each st now action (request_keys L rq uid action) = Return False"
    using check_each_counters [OF assms(1), of action] assms(2) request_keys_nonempty [of L rq uid action]
    by simp
  then show ?thesis
    by (simp add: advanced_rate_limiting_def Let_def request_keys_def [symmetric]
        rate_limit_failure_def abuse_event_def split: option.splits)
qed

lemma advanced_rate_limiting_only_if:
  assumes "fst (advanced_rate_limiting L st now eid rq uid action) = Return True"
  shows "list_all (\<lambda>k. current_count st now k < requests (rate_limits_get action))
           (request_keys L rq uid action)"
proof -
  have "check_each st now action (request_keys L rq uid action) = Return True"
    using assms
    by (auto simp: advanced_rate_limiting_def Let_def request_keys_def [symmetric]
        split: outcome.splits if_splits option.splits prod.splits)
  then show ?thesis by (rule check_each_True_counts)
qed

lemma rate_limit_calls_run:
  assumes "\<forall>k\<in>set (request_keys L rq uid action). counter_reads st now k c" and "0 \<le> c"
      and "c + 1 + int (length rest) \<le> requests (rate_limits_get action)"
      and "in_window (window (rate_limits_get action)) (now + window (rate_limits_get action))
             (map fst rest)"
  shows "rate_limit_calls L st rq uid action ((now, eid) # rest)
           = (replicate (Suc (length rest)) (Return True),
              set_counters st (request_keys L rq uid action) (c + 1 + int (length rest))
                (last (now # map fst rest) + window (rate_limits_get action)))"
  using assms
proof (induction rest arbitrary: st now eid c)
  case Nil
  have "c < requests (rate_limits_get action)" using Nil.prems(3) by simp
  then show ?case
    using advanced_rate_limiting_allowed [OF Nil.prems(1,2), of eid] by simp
next
  case (Cons a rest)
  obtain now' eid' where a: "a = (now', eid')" by (cases a)
  let ?w = "window (rate_limits_get action)"
  let ?st1 = "set_counters st (request_keys L rq uid action) (c + 1) (now + ?w)"
  have step: "advanced_rate_limiting L st now eid rq uid action = (Return True, ?st1)"
    using Cons.prems by (intro advanced_rate_limiting_allowed) auto
  have rd: "\<forall>k\<in>set (request_keys L rq uid action). counter_reads ?st1 now' k (c + 1)"
    using Cons.prems(4) a by (simp add: counter_reads_set_counters)
  have ih: "rate_limit_calls L ?st1 rq uid action ((now', eid') # rest)
           = (replicate (Suc (length rest)) (Return True),
              set_counters ?st1 (request_keys L rq uid action) (c + 1 + 1 + int (length rest))
                (last (now' # map fst rest) + ?w))"
    using Cons.prems a by (intro Cons.IH [OF rd]) auto
  show ?case
    using step ih a by (simp add: add.commute add.left_commute)
qed

lemma in_window_replicate: "t < e \<Longrightarrow> 0 < w \<Longrightarrow> in_window w e (replicate n t)"
  by (induction n arbitrary: e) auto

text \<open>
  C3 (every action, also one outside the policy table, fails with the rate-limit failure
  and in no other way). The action \<open>export\<close> is not in the table, so its quota is the
  default of 100 per 3600 seconds. From an empty store, 100 calls for it return true; at
  the next call the API-abuse event is logged and then the lookup
  \<^verbatim>\<open>self.rate_limits[action]\<close> raises \<^verbatim>\<open>KeyError\<close> in place of the rate-limit
  failure.
\<close>

theorem rate_limit_unlisted_action_KeyError:
  "fst (rate_limit_calls L empty_store bare_request None ''export''
          ((0, eid) # replicate 99 (0, eid)))
     = replicate 100 (Return True)
   \<and> fst (advanced_rate_limiting L
        (snd (rate_limit_calls L empty_store bare_request None ''export''
                ((0, eid) # replicate 99 (0, eid))))
        0 eid bare_request None ''export'')
     = Raise (KeyError ''export'')
   \<and> map event_type (security_events (snd (advanced_rate_limiting L
        (snd (rate_limit_calls L empty_store bare_request None ''export''
                ((0, eid) # replicate 99 (0, eid))))
        0 eid bare_request None ''export'')))
     = [API_ABUSE]"
proof -
  let ?keys = "request_keys L bare_request None ''export''"
  let ?run = "rate_limit_calls L empty_store bare_request None ''export''
                ((0, eid) # replicate 99 (0, eid))"
  have q: "requests (rate_limits_get ''export'') = 100" "window (rate_limits_get ''export'') = 3600"
    by (simp_all add: rate_limits_get_def rate_limits_def)
  have f: "rate_limit_failure ''export'' = KeyError ''export''"
    by (simp add: rate_limit_failure_def rate_limits_def)
  have fresh: "\<forall>k\<in>set ?keys. counter_reads empty_store 0 k 0"
    by (simp add: counter_reads_empty_store)
  have win: "in_window (window (rate_limits_get ''export'')) (0 + window (rate_limits_get ''export''))
               (map fst (replicate 99 (0::nat, eid)))"
    by (simp add: q in_window_replicate)
  have run: "?run = (replicate (Suc (length (replicate 99 (0::nat, eid)))) (Return True),
                     set_counters empty_store ?keys (0 + 1 + int (length (replicate 99 (0::nat, eid))))
                       (last (0 # map fst (replicate 99 (0::nat, eid)))
                          + window (rate_limits_get ''export'')))"
    using fresh win by (intro rate_limit_calls_run) (auto simp: q)
  have res: "fst ?run = replicate 100 (Return True)"
    by (subst run) simp
  have full: "\<forall>k\<in>set ?keys. counter_reads (snd ?run) 0 k 100"
    by (subst run) (simp add: counter_reads_set_counters q)
  have blocked: "advanced_rate_limiting L (snd ?run) 0 eid bare_request None ''export''
           = (Raise (rate_limit_failure ''export''),
              log_security_event (snd ?run) (abuse_event eid bare_request None ''export'' 0))"
    using full by (intro advanced_rate_limiting_blocked) (auto simp: q)
  have ev: "security_events (snd ?run) = []"
    by (subst run) (simp add: empty_store_def)
  have logged: "map event_type (security_events (snd
          (advanced_rate_limiting L (snd ?run) 0 eid bare_request None ''export'')))
       = [API_ABUSE]"
    unfolding blocked
    by (simp add: security_events_log ev abuse_event_def del: rate_limit_calls.simps)
  have raised: "fst (advanced_rate_limiting L (snd ?run) 0 eid bare_request None ''export'')
       = Raise (KeyError ''export'')"
    unfolding blocked by (simp add: f)
  show ?thesis
    using res raised logged by blast
qed

lemma request_keys_dimension_keys:
  "request_keys L rq uid action = dimension_keys L rq uid action"
  by (simp add: request_keys_def rate_limit_keys_def dimension_keys_def counter_key_def
      split: option.splits)

lemma kv_set_counters:
  "k \<in> set keys \<Longrightarrow> kv (set_counters st keys c e) k = Some (RInt c, Some e)"
  by (simp add: set_counters_def)

lemma fourth_password_reset_call:
  "advanced_rate_limiting accepting_libs
     (snd (rate_limit_calls accepting_libs empty_store bare_request (Some ''u'')
             ''password_reset'' three_calls))
     3 ''d'' bare_request (Some ''u'') ''password_reset''
   = (Raise (HTTPException 429
               (RateLimitExceeded ''Rate limit exceeded'' ''password_reset'' 3600)),
      log_security_event
        (snd (rate_limit_calls accepting_libs empty_store bare_request (Some ''u'')
                ''password_reset'' three_calls))
        (abuse_event ''d'' bare_request (Some ''u'') ''password_reset'' 3))"
proof -
  let ?keys = "request_keys accepting_libs bare_request (Some ''u'') ''password_reset''"
  let ?run = "rate_limit_calls accepting_libs empty_store bare_request (Some ''u'')
                ''password_reset'' ((0, ''a'') # [(1, ''b''), (2, ''c'')])"
  have q: "requests (rate_limits_get ''password_reset'') = 3"
          "window (rate_limits_get ''password_reset'') = 3600"
    by (simp_all add: rate_limits_get_def rate_limits_def)
  have f: "rate_limit_failure ''password_reset''
         = HTTPException 429 (RateLimitExceeded ''Rate limit exceeded'' ''password_reset'' 3600)"
    by (simp add: rate_limit_failure_def rate_limits_def)
  have fresh: "\<forall>k\<in>set ?keys. counter_reads empty_store 0 k 0"
    by (simp add: counter_reads_empty_store)
  have run: "?run = (replicate (Suc (length [(1::nat, ''b''), (2, ''c'')])) (Return True),
                     set_counters empty_store ?keys
                       (0 + 1 + int (length [(1::nat, ''b''), (2, ''c'')]))
                       (last (0 # map fst [(1::nat, ''b''), (2, ''c'')])
                          + window (rate_limits_get ''password_reset'')))"
    using fresh by (intro rate_limit_calls_run) (auto simp: q)
  have full: "\<forall>k\<in>set ?keys. counter_reads (snd ?run) 3 k 3"
    by (subst run) (simp add: counter_reads_set_counters q)
  have "advanced_rate_limiting accepting_libs (snd ?run) 3 ''d'' bare_request (Some ''u'')
          ''password_reset''
        = (Raise (rate_limit_failure ''password_reset''),
           log_security_event (snd ?run)
             (abuse_event ''d'' bare_request (Some ''u'') ''password_reset'' 3))"
    using full by (intro advanced_rate_limiting_blocked) (auto simp: q)
  then show ?thesis
    unfolding f three_calls_def .
qed

text \<open>
  C4, as amended. The counters of a request are those of its dimensions, under the keys
  \<^verbatim>\<open>rate_limit:{action}:{dimension}:{identifier}\<close>. From counters that read 0, as many
  calls as the quota of the action, made in time order within the window, all return
  true and leave each of these counters at the quota. A further call within the window is
  not allowed: it fails, and for an action of the policy table it raises the rate-limit
  failure of status 429. Once more than the window has passed since the last counted
  call, the counters have expired and a call returns true again, also after a rejected
  call. Whenever a call returns true, the count of every dimension of the request was
  below the quota.
\<close>

theorem rate_limit_quota_block_reset:
  assumes "list_all (\<lambda>k. counter_reads st now k 0) (dimension_keys L rq uid action)"
      and "int (Suc (length rest)) = requests (rate_limits_get action)"
      and "sorted (now # map fst rest @ [t])"
      and "t < now + window (rate_limits_get action)"
      and "last (now # map fst rest) + window (rate_limits_get action) < t'"
  shows "fst (rate_limit_calls L st rq uid action ((now, eid) # rest))
           = replicate (Suc (length rest)) (Return True)
       \<and> list_all
           (\<lambda>k. kv (snd (rate_limit_calls L st rq uid action ((now, eid) # rest))) k
                  = Some (RInt (requests (rate_limits_get action)),
                          Some (last (now # map fst rest) + window (rate_limits_get action))))
           (dimension_keys L rq uid action)
       \<and> fails (fst (advanced_rate_limiting L
                (snd (rate_limit_calls L st rq uid action ((now, eid) # rest)))
                t eid1 rq uid action))
       \<and> (case rate_limits action of
            Some c \<Rightarrow>
              fst (advanced_rate_limiting L
                     (snd (rate_limit_calls L st rq uid action ((now, eid) # rest)))
                     t eid1 rq uid action)
                = Raise (HTTPException 429
                           (RateLimitExceeded ''Rate limit exceeded'' action (window c)))
          | None \<Rightarrow> True)
       \<and> fst (advanced_rate_limiting L
                (snd (rate_limit_calls L st rq uid action ((now, eid) # rest)))
                t' eid2 rq uid action) = Return True
       \<and> fst (advanced_rate_limiting L
                (snd (advanced_rate_limiting L
                   (snd (rate_limit_calls L st rq uid action ((now, eid) # rest)))
                   t eid1 rq uid action))
                t' eid2 rq uid action) = Return True
       \<and> (fst (advanced_rate_limiting L s n e rq uid action) = Return True \<longrightarrow>
            list_all (\<lambda>k. current_count s n k < requests (rate_limits_get action))
              (dimension_keys L rq uid action))"
proof -
  let ?w = "window (rate_limits_get action)"
  let ?q = "requests (rate_limits_get action)"
  let ?keys = "request_keys L rq uid action"
  let ?run = "rate_limit_calls L st rq uid action ((now, eid) # rest)"
  let ?e = "last (now # map fst rest) + ?w"
  have dk: "dimension_keys L rq uid action = ?keys"
    by (simp add: request_keys_dimension_keys)
  have fresh: "\<forall>k\<in>set ?keys. counter_reads st now k 0"
    using assms(1) by (simp add: list_all_iff dk)
  have srt: "sorted (now # map fst rest)" and le_t: "\<forall>x\<in>set (now # map fst rest). x \<le> t"
    using assms(3) by (auto simp: sorted_append)
  have "\<forall>x\<in>set (map fst rest). x < now + ?w"
    using le_t assms(4) by auto
  then have win: "in_window ?w (now + ?w) (map fst rest)"
    using srt by (intro sorted_in_window) auto
  have run: "?run = (replicate (Suc (length rest)) (Return True),
                     set_counters st ?keys (0 + 1 + int (length rest)) ?e)"
    using fresh assms(2) win by (intro rate_limit_calls_run) auto
  have fin: "snd ?run = set_counters st ?keys ?q ?e"
    by (subst run) (simp add: assms(2) [symmetric])
  have res: "fst ?run = replicate (Suc (length rest)) (Return True)"
    by (subst run) simp
  have written: "list_all (\<lambda>k. kv (snd ?run) k = Some (RInt ?q, Some ?e))
                   (dimension_keys L rq uid action)"
    unfolding fin dk by (simp add: list_all_iff kv_set_counters)
  have "t \<le> ?e"
    using last_ge_first [OF srt] assms(4) by simp
  then have full: "\<forall>k\<in>set ?keys. counter_reads (snd ?run) t k ?q"
    unfolding fin by (simp add: counter_reads_set_counters)
  have blocked: "advanced_rate_limiting L (snd ?run) t eid1 rq uid action
           = (Raise (rate_limit_failure action),
              log_security_event (snd ?run) (abuse_event eid1 rq uid action t))"
    using full by (intro advanced_rate_limiting_blocked) auto
  have expired: "\<forall>k\<in>set ?keys. counter_reads (snd ?run) t' k 0"
    unfolding fin using assms(5) by (simp add: counter_reads_set_counters)
  have again: "fst (advanced_rate_limiting L (snd ?run) t' eid2 rq uid action) = Return True"
    using advanced_rate_limiting_allowed [OF expired, of eid2] requests_pos [of action] by simp
  have expired': "\<forall>k\<in>set ?keys. counter_reads
          (log_security_event (snd ?run) (abuse_event eid1 rq uid action t)) t' k 0"
    using expired by simp
  have again': "fst (advanced_rate_limiting L
          (snd (advanced_rate_limiting L (snd ?run) t eid1 rq uid action))
          t' eid2 rq uid action) = Return True"
    unfolding blocked
    using advanced_rate_limiting_allowed [OF expired', of eid2] requests_pos [of action] by simp
  have blocked_fst: "fst (advanced_rate_limiting L (snd ?run) t eid1 rq uid action)
          = Raise (rate_limit_failure action)"
    unfolding blocked by simp
  have failed: "fails (fst (advanced_rate_limiting L (snd ?run) t eid1 rq uid action))"
    unfolding blocked_fst by simp
  have listed: "case rate_limits action of
            Some c \<Rightarrow>
              fst (advanced_rate_limiting L (snd ?run) t eid1 rq uid action)
                = Raise (HTTPException 429
                           (RateLimitExceeded ''Rate limit exceeded'' action (window c)))
          | None \<Rightarrow> True"
    unfolding blocked_fst by (simp add: rate_limit_failure_def split: option.splits)
  have only_if: "fst (advanced_rate_limiting L s n e rq uid action) = Return True \<longrightarrow>
            list_all (\<lambda>k. current_count s n k < requests (rate_limits_get action))
              (dimension_keys L rq uid action)"
    unfolding dk using advanced_rate_limiting_only_if [of L s n e rq uid action] by blast
  show ?thesis
    using res written failed listed again again' only_if by blast
qed

theorem rate_limit_quota_block_reset_witness:
  "list_all (\<lambda>k. counter_reads empty_store 0 k 0)
     (dimension_keys accepting_libs bare_request (Some ''u'') ''password_reset'')
   \<and> int (Suc (length (tl three_calls))) = requests (rate_limits_get ''password_reset'')
   \<and> sorted (0 # map fst (tl three_calls) @ [3])
   \<and> (3::nat) < 0 + window (rate_limits_get ''password_reset'')
   \<and> last (0 # map fst (tl three_calls)) + window (rate_limits_get ''password_reset'') < 3603
   \<and> fst (rate_limit_calls accepting_libs empty_store bare_request (Some ''u'')
            ''password_reset'' ((0, ''a'') # tl three_calls))
        = [Return True, Return True, Return True]
   \<and> fails (fst (advanced_rate_limiting accepting_libs
            (snd (rate_limit_calls accepting_libs empty_store bare_request (Some ''u'')
                    ''password_reset'' ((0, ''a'') # tl three_calls)))
            3 ''d'' bare_request (Some ''u'') ''password_reset''))
   \<and> fst (advanced_rate_limiting accepting_libs
            (snd (rate_limit_calls accepting_libs empty_store bare_request (Some ''u'')
                    ''password_reset'' ((0, ''a'') # tl three_calls)))
            3603 ''e'' bare_request (Some ''u'') ''password_reset'')
        = Return True"
proof -
  have h1: "list_all (\<lambda>k. counter_reads empty_store 0 k 0)
     (dimension_keys accepting_libs bare_request (Some ''u'') ''password_reset'')"
    by (simp add: list_all_iff counter_reads_empty_store)
  have q: "requests (rate_limits_get ''password_reset'') = 3"
          "window (rate_limits_get ''password_reset'') = 3600"
    by (simp_all add: rate_limits_get_def rate_limits_def)
  have h2: "int (Suc (length (tl three_calls))) = requests (rate_limits_get ''password_reset'')"
    by (simp add: q three_calls_def)
  have h3: "sorted (0 # map fst (tl three_calls) @ [3])"
    by (simp add: three_calls_def)
  have h4: "(3::nat) < 0 + window (rate_limits_get ''password_reset'')"
    by (simp add: q)
  have h5: "last (0 # map fst (tl three_calls)) + window (rate_limits_get ''password_reset'') < 3603"
    by (simp add: q three_calls_def)
  have len: "Suc (length (tl three_calls)) = 3"
    by (simp add: three_calls_def)
  have rep: "replicate 3 (Return True :: bool outcome) = [Return True, Return True, Return True]"
    by (simp add: numeral_3_eq_3)
  note main = rate_limit_quota_block_reset [OF h1 h2 h3 h4 h5, of "''a''" "''d''" "''e''"]
  show ?thesis
    using main h1 h2 h3 h4 h5 unfolding len rep by blast
qed

text \<open>The fourth call for \<open>password_reset\<close> (quota 3) within the window does not return
  false: it raises the exception of status 429.\<close>

theorem rate_limit_rejection_raises:
  "fst (advanced_rate_limiting accepting_libs
          (snd (rate_limit_calls accepting_libs empty_store bare_request (Some ''u'')
                  ''password_reset'' three_calls))
          3 ''d'' bare_request (Some ''u'') ''password_reset'')
     = Raise (HTTPException 429
                (RateLimitExceeded ''Rate limit exceeded'' ''password_reset'' 3600))
   \<and> fst (advanced_rate_limiting accepting_libs
          (snd (rate_limit_calls accepting_libs empty_store bare_request (Some ''u'')
                  ''password_reset'' three_calls))
          3 ''d'' bare_request (Some ''u'') ''password_reset'')
     \<noteq> Return False"
  by (simp only: fourth_password_reset_call fst_conv) simp

section \<open>Issuing, validating and revoking tokens\<close>

lemma token_hex_nonempty: "rnd \<noteq> [] \<Longrightarrow> token_hex rnd \<noteq> []"
  by (cases rnd) (simp_all add: token_hex_def)

lemma fst_create:
  "fst (create_secure_jwt_token key st t0 rnd payload tt)
     = Signed ((if tt = ''access''
                then (\<lambda>m. m(''exp'' \<mapsto> JNum (int (t0 + access_token_expire))))
                else if tt = ''refresh''
                then (\<lambda>m. m(''exp'' \<mapsto> JNum (int (t0 + refresh_token_expire))))
                else (\<lambda>m. m))
               (payload(''iat'' \<mapsto> JNum (int t0), ''nbf'' \<mapsto> JNum (int t0),
                        ''jti'' \<mapsto> JStr (token_hex rnd), ''token_type'' \<mapsto> JStr tt))) key"
  by (simp add: create_secure_jwt_token_def Let_def jwt_encode_def)

lemma kv_create:
  "kv (snd (create_secure_jwt_token key st t0 rnd payload tt))
     = (kv st)(''jwt:'' @ token_hex rnd \<mapsto>
         (RJson [(''user_id'', case payload ''sub'' of Some v \<Rightarrow> v | None \<Rightarrow> JNull),
                 (''token_type'', JStr tt)],
          Some (t0 + token_lifetime tt)))"
  by (simp add: create_secure_jwt_token_def Let_def redis_setex_def token_lifetime_def)

text \<open>The token that is issued decodes at every time from its issue on, until it
  expires, when the caller's payload names no audience and its subject is a string.\<close>

lemma decode_issued:
  assumes "tt = ''access'' \<or> tt = ''refresh''" and "t0 \<le> t"
      and "\<not> claim_truthy (payload ''aud'')"
      and "claim_string_or_absent (payload ''sub'')"
  shows "jwt_decode (fst (create_secure_jwt_token key st t0 rnd payload tt)) key verify_exp t
     = (if verify_exp \<and> t0 + token_lifetime tt \<le> t then Inl ExpiredSignatureError
        else Inr (payload(''iat'' \<mapsto> JNum (int t0), ''nbf'' \<mapsto> JNum (int t0),
                     ''jti'' \<mapsto> JStr (token_hex rnd), ''token_type'' \<mapsto> JStr tt,
                     ''exp'' \<mapsto> JNum (int (t0 + token_lifetime tt)))))"
  using assms by (auto simp: fst_create token_lifetime_def)

lemma issue_then_validate:
  assumes "\<not> claim_truthy (payload ''aud'')"
      and "claim_string_or_absent (payload ''sub'')"
  shows "validate_jwt_token key (snd (create_secure_jwt_token key st t0 rnd payload ''access'')) t0
     (fst (create_secure_jwt_token key st t0 rnd payload ''access''))
   = Return (payload(''iat'' \<mapsto> JNum (int t0), ''nbf'' \<mapsto> JNum (int t0),
                     ''jti'' \<mapsto> JStr (token_hex rnd), ''token_type'' \<mapsto> JStr ''access'',
                     ''exp'' \<mapsto> JNum (int (t0 + token_lifetime ''access''))))"
proof -
  have d: "jwt_decode (fst (create_secure_jwt_token key st t0 rnd payload ''access'')) key True t0
     = Inr (payload(''iat'' \<mapsto> JNum (int t0), ''nbf'' \<mapsto> JNum (int t0),
                     ''jti'' \<mapsto> JStr (token_hex rnd), ''token_type'' \<mapsto> JStr ''access'',
                     ''exp'' \<mapsto> JNum (int (t0 + token_lifetime ''access''))))"
    using decode_issued [OF _ _ assms, of "''access''" t0 t0 key st rnd True]
    by (simp add: token_lifetime_def access_token_expire_def)
  show ?thesis
    by (simp add: validate_jwt_token_def validate_try_decoded [OF d] kv_create redis_get_def)
qed

lemma revoke_issued:
  assumes "tt = ''access'' \<or> tt = ''refresh''" and "t0 \<le> t1" and "rnd \<noteq> []"
      and "\<not> claim_truthy (payload ''aud'')"
      and "claim_string_or_absent (payload ''sub'')"
  shows "revoke_jwt_token key (snd (create_secure_jwt_token key st t0 rnd payload tt)) t1
           (fst (create_secure_jwt_token key st t0 rnd payload tt))
     = (True, (snd (create_secure_jwt_token key st t0 rnd payload tt))
               \<lparr>kv := (kv st)(''jwt:'' @ token_hex rnd := None)\<rparr>)"
  using token_hex_nonempty [OF assms(3)]
  by (simp add: revoke_jwt_token_def decode_issued [OF assms(1,2,4,5)] kv_create
      redis_delete_def)

text \<open>What validation raises for a revoked token that has not expired is not the 401
  of the body but the \<^verbatim>\<open>AttributeError\<close> of the handler lookup.\<close>

lemma validate_after_revoke:
  assumes "rnd \<noteq> []"
      and "tt = ''access'' \<or> tt = ''refresh''"
      and "t0 \<le> t1" and "t1 \<le> t2"
      and "\<not> claim_truthy (payload ''aud'')"
      and "claim_string_or_absent (payload ''sub'')"
  shows "validate_jwt_token key
           (snd (revoke_jwt_token key (snd (create_secure_jwt_token key st t0 rnd payload tt)) t1
                  (fst (create_secure_jwt_token key st t0 rnd payload tt))))
           t2 (fst (create_secure_jwt_token key st t0 rnd payload tt))
         = (if t0 + token_lifetime tt \<le> t2
            then Raise (HTTPException 401 (Detail ''Token has expired''))
            else Raise (AttributeError ''JWTError''))"
proof -
  have t02: "t0 \<le> t2" using assms(3,4) by simp
  note rv = revoke_issued [OF assms(2,3,1,5,6), of key st]
  note dc = decode_issued [OF assms(2) t02 assms(5,6), of key st rnd True]
  show ?thesis
    using token_hex_nonempty [OF assms(1)]
    by (simp add: rv validate_jwt_token_def validate_jwt_token_try_def dc redis_get_def)
qed

text \<open>
  C5, as amended. For a payload that names no audience and whose subject is a string, an
  access token validated at the time of its issue returns a payload with that subject. An
  access or refresh token that is revoked and then validated is not returned: validation
  fails, and from the token's expiry time on it fails with "Token has expired", since the
  temporal claims are checked before the ledger.
\<close>

theorem issue_validate_revoke:
  assumes "rnd \<noteq> []"
      and "tt = ''access'' \<or> tt = ''refresh''"
      and "t0 \<le> t1" and "t1 \<le> t2"
      and "\<not> claim_truthy (payload ''aud'')"
      and "claim_string_or_absent (payload ''sub'')"
  shows "(case validate_jwt_token key
                (snd (create_secure_jwt_token key st t0 rnd payload ''access'')) t0
                (fst (create_secure_jwt_token key st t0 rnd payload ''access'')) of
            Return p \<Rightarrow> p ''sub'' = payload ''sub''
          | Raise e \<Rightarrow> False)
       \<and> fst (revoke_jwt_token key (snd (create_secure_jwt_token key st t0 rnd payload tt)) t1
               (fst (create_secure_jwt_token key st t0 rnd payload tt))) = True
       \<and> fails (validate_jwt_token key
           (snd (revoke_jwt_token key (snd (create_secure_jwt_token key st t0 rnd payload tt)) t1
                  (fst (create_secure_jwt_token key st t0 rnd payload tt))))
           t2 (fst (create_secure_jwt_token key st t0 rnd payload tt)))
       \<and> (if t0 + token_lifetime tt \<le> t2
          then validate_jwt_token key
                 (snd (revoke_jwt_token key
                         (snd (create_secure_jwt_token key st t0 rnd payload tt)) t1
                         (fst (create_secure_jwt_token key st t0 rnd payload tt))))
                 t2 (fst (create_secure_jwt_token key st t0 rnd payload tt))
               = Raise (HTTPException 401 (Detail ''Token has expired''))
          else True)"
proof -
  have a: "(case validate_jwt_token key
                (snd (create_secure_jwt_token key st t0 rnd payload ''access'')) t0
                (fst (create_secure_jwt_token key st t0 rnd payload ''access'')) of
            Return p \<Rightarrow> p ''sub'' = payload ''sub''
          | Raise e \<Rightarrow> False)"
    by (simp add: issue_then_validate [OF assms(5,6)])
  have b: "fst (revoke_jwt_token key (snd (create_secure_jwt_token key st t0 rnd payload tt)) t1
               (fst (create_secure_jwt_token key st t0 rnd payload tt))) = True"
    by (simp add: revoke_issued [OF assms(2,3,1,5,6)])
  note c = validate_after_revoke [OF assms, of key st]
  show ?thesis
    using a b by (simp add: c)
qed

theorem issue_validate_revoke_witness:
  "sixteen_bytes \<noteq> []
   \<and> (0::nat) \<le> 10 \<and> (10::nat) \<le> 20
   \<and> \<not> claim_truthy (alice_payload ''aud'')
   \<and> claim_string_or_absent (alice_payload ''sub'')
   \<and> fails (validate_jwt_token ''k''
        (snd (revoke_jwt_token ''k''
                (snd (create_secure_jwt_token ''k'' empty_store 0 sixteen_bytes alice_payload ''access''))
                10
                (fst (create_secure_jwt_token ''k'' empty_store 0 sixteen_bytes alice_payload ''access''))))
        20
        (fst (create_secure_jwt_token ''k'' empty_store 0 sixteen_bytes alice_payload ''access'')))"
  using issue_validate_revoke
    [where rnd = sixteen_bytes and tt = "''access''" and ?t0.0 = 0 and ?t1.0 = 10 and ?t2.0 = 20
       and key = "''k''" and st = empty_store and payload = alice_payload]
  by (simp add: sixteen_bytes_def alice_payload_def)

text \<open>An access token issued at time 0 and revoked at its expiry time 3600 fails
  validation with "Token has expired", not with "Token has been revoked".\<close>

theorem revoked_expired_token_reports_expired:
  "fst (revoke_jwt_token ''k''
          (snd (create_secure_jwt_token ''k'' empty_store 0 sixteen_bytes alice_payload ''access''))
          3600
          (fst (create_secure_jwt_token ''k'' empty_store 0 sixteen_bytes alice_payload ''access'')))
     = True
   \<and> validate_jwt_token ''k''
        (snd (revoke_jwt_token ''k''
                (snd (create_secure_jwt_token ''k'' empty_store 0 sixteen_bytes alice_payload ''access''))
                3600
                (fst (create_secure_jwt_token ''k'' empty_store 0 sixteen_bytes alice_payload ''access''))))
        3600
        (fst (create_secure_jwt_token ''k'' empty_store 0 sixteen_bytes alice_payload ''access''))
      = Raise (HTTPException 401 (Detail ''Token has expired''))"
proof -
  have ne: "sixteen_bytes \<noteq> []" by (simp add: sixteen_bytes_def)
  have aud: "\<not> claim_truthy (alice_payload ''aud'')"
    and sub: "claim_string_or_absent (alice_payload ''sub'')"
    by (simp_all add: alice_payload_def)
  have r: "fst (revoke_jwt_token ''k''
          (snd (create_secure_jwt_token ''k'' empty_store 0 sixteen_bytes alice_payload ''access''))
          3600
          (fst (create_secure_jwt_token ''k'' empty_store 0 sixteen_bytes alice_payload ''access'')))
     = True"
    by (simp add: revoke_issued [OF _ _ ne aud sub])
  have v: "validate_jwt_token ''k''
        (snd (revoke_jwt_token ''k''
                (snd (create_secure_jwt_token ''k'' empty_store 0 sixteen_bytes alice_payload ''access''))
                3600
                (fst (create_secure_jwt_token ''k'' empty_store 0 sixteen_bytes alice_payload ''access''))))
        3600
        (fst (create_secure_jwt_token ''k'' empty_store 0 sixteen_bytes alice_payload ''access''))
      = Raise (HTTPException 401 (Detail ''Token has expired''))"
    using validate_after_revoke [OF ne _ _ _ aud sub, of "''access''" 0 3600 3600 "''k''" empty_store]
    by (simp add: token_lifetime_def access_token_expire_def)
  show ?thesis using r v by (rule conjI)
qed

section \<open>Entropy and crack-time estimate\<close>

lemma charset_size_ge_10: "0 < charset_size pw \<Longrightarrow> 10 \<le> charset_size pw"
  by (auto simp: charset_size_def split: if_splits)

lemma entropy_nonneg: "0 \<le> calculate_password_entropy pw"
proof (cases "0 < charset_size pw")
  case True
  then have "1 \<le> real (charset_size pw)"
    using charset_size_ge_10 [OF True] by simp
  then have "0 \<le> log 2 (real (charset_size pw))"
    by simp
  then show ?thesis
    using True by (simp add: calculate_password_entropy_def)
next
  case False
  then show ?thesis by (simp add: calculate_password_entropy_def)
qed

lemma crack_time_bucket_Return:
  "crack_time_bucket pw e = Return b \<longleftrightarrow> e < 1024 \<and> b = bucket_of_seconds (seconds_to_crack e)"
  by (auto simp: crack_time_bucket_def bucket_of_seconds_def seconds_to_crack_def Let_def)

lemma floor_unit_le: "0 < u \<Longrightarrow> real_of_int \<lfloor>s / u\<rfloor> * u \<le> s"
proof -
  assume u: "0 < u"
  have "real_of_int \<lfloor>s / u\<rfloor> \<le> s / u" by simp
  then have "real_of_int \<lfloor>s / u\<rfloor> * u \<le> (s / u) * u"
    using u by (intro mult_right_mono) auto
  then show ?thesis using u by simp
qed

lemma floor_unit_ge: "0 < u \<Longrightarrow> u \<le> s \<Longrightarrow> u \<le> real_of_int \<lfloor>s / u\<rfloor> * u"
proof -
  assume u: "0 < u" and s: "u \<le> s"
  have "1 \<le> s / u" using u s by simp
  then have "1 \<le> \<lfloor>s / u\<rfloor>" by (simp add: le_floor_iff)
  then have "1 \<le> real_of_int \<lfloor>s / u\<rfloor>" by linarith
  then have "1 * u \<le> real_of_int \<lfloor>s / u\<rfloor> * u"
    using u by (intro mult_right_mono) auto
  then show ?thesis by simp
qed

lemma floor_unit_mono:
  "0 < u \<Longrightarrow> s1 \<le> s2 \<Longrightarrow> real_of_int \<lfloor>s1 / u\<rfloor> * u \<le> real_of_int \<lfloor>s2 / u\<rfloor> * u"
proof -
  assume u: "0 < u" and s: "s1 \<le> s2"
  have "s1 / u \<le> s2 / u" using u s by (simp add: divide_right_mono)
  then have "\<lfloor>s1 / u\<rfloor> \<le> \<lfloor>s2 / u\<rfloor>" by (rule floor_mono)
  then have "real_of_int \<lfloor>s1 / u\<rfloor> \<le> real_of_int \<lfloor>s2 / u\<rfloor>" by simp
  then show ?thesis using u by (intro mult_right_mono) auto
qed

lemma bucket_seconds_mono:
  assumes "s1 \<le> s2"
  shows "crack_time_seconds (bucket_of_seconds s1) \<le> crack_time_seconds (bucket_of_seconds s2)"
proof -
  have le: "real_of_int \<lfloor>s1 / 60\<rfloor> * 60 \<le> s1" "real_of_int \<lfloor>s1 / 3600\<rfloor> * 3600 \<le> s1"
           "real_of_int \<lfloor>s1 / 86400\<rfloor> * 86400 \<le> s1"
    by (rule floor_unit_le, simp)+
  have ge: "60 \<le> s2 \<longrightarrow> 60 \<le> real_of_int \<lfloor>s2 / 60\<rfloor> * 60"
           "3600 \<le> s2 \<longrightarrow> 3600 \<le> real_of_int \<lfloor>s2 / 3600\<rfloor> * 3600"
           "86400 \<le> s2 \<longrightarrow> 86400 \<le> real_of_int \<lfloor>s2 / 86400\<rfloor> * 86400"
           "31536000 \<le> s2 \<longrightarrow> 31536000 \<le> real_of_int \<lfloor>s2 / 31536000\<rfloor> * 31536000"
    by (auto intro: floor_unit_ge)
  have mono: "real_of_int \<lfloor>s1 / 60\<rfloor> * 60 \<le> real_of_int \<lfloor>s2 / 60\<rfloor> * 60"
             "real_of_int \<lfloor>s1 / 3600\<rfloor> * 3600 \<le> real_of_int \<lfloor>s2 / 3600\<rfloor> * 3600"
             "real_of_int \<lfloor>s1 / 86400\<rfloor> * 86400 \<le> real_of_int \<lfloor>s2 / 86400\<rfloor> * 86400"
             "real_of_int \<lfloor>s1 / 31536000\<rfloor> * 31536000 \<le> real_of_int \<lfloor>s2 / 31536000\<rfloor> * 31536000"
    by (rule floor_unit_mono [OF _ assms], simp)+
  have "real_of_int (crack_time_seconds (bucket_of_seconds s1))
          \<le> real_of_int (crack_time_seconds (bucket_of_seconds s2))"
    using assms le ge mono
    by (simp add: bucket_of_seconds_def; linarith)
  then show ?thesis by (simp only: of_int_le_iff)
qed

lemma seconds_to_crack_mono: "e1 \<le> e2 \<Longrightarrow> seconds_to_crack e1 \<le> seconds_to_crack e2"
  by (simp add: seconds_to_crack_def divide_right_mono powr_mono)

lemma crack_time_monotone:
  assumes "crack_time_bucket p1 e1 = Return b1" and "crack_time_bucket p2 e2 = Return b2"
      and "e1 \<le> e2"
  shows "crack_time_seconds b1 \<le> crack_time_seconds b2"
  using assms bucket_seconds_mono [OF seconds_to_crack_mono [OF assms(3)]]
  by (simp add: crack_time_bucket_Return)

lemma log2_32: "log 2 32 = 5"
proof -
  have "(32::real) = 2 ^ 5" by simp
  then have "log 2 32 = log 2 (2 ^ 5)" by simp
  also have "\<dots> = 5" by (simp del: power_numeral)
  finally show ?thesis .
qed

lemma charset_size_long_password: "charset_size long_password = 32"
  by (simp add: charset_size_def long_password_def list_ex_iff islower_def isupper_def
      isdigit_def isspecial_def)

lemma entropy_long_password: "calculate_password_entropy long_password = 1025"
  by (simp add: calculate_password_entropy_def charset_size_long_password log2_32)
     (simp add: long_password_def)

text \<open>
  C10 (the entropy is never negative and the crack-time estimate never decreases as the
  entropy grows, for every password). The entropy is never negative
  (\<open>entropy_nonneg\<close>), and where two estimates are returned they are ordered as the
  entropies are (\<open>crack_time_monotone\<close>). But a password of 205 exclamation marks has
  entropy 205 * log2 32 = 1025 bits, and for it \<^verbatim>\<open>2**entropy\<close> raises
  \<^verbatim>\<open>OverflowError\<close>: no estimate is returned.
\<close>

theorem crack_time_overflow:
  "calculate_password_entropy long_password = 1025
   \<and> estimate_crack_time long_password (calculate_password_entropy long_password)
       = Raise OverflowError"
  by (simp add: entropy_long_password estimate_crack_time_def crack_time_bucket_def)

end
